theory Spec2Isabelle
  imports Complex_Main "HOL-Library.List_Lexorder" "HOL-Library.Char_ord"
begin

section \<open>The podcast tools of \<^verbatim>\<open>tools.py\<close>\<close>

text \<open>
  The two tools of \<^verbatim>\<open>tools.py\<close>, \<^verbatim>\<open>PodcastAudioGenerator._run\<close> and
  \<^verbatim>\<open>PodcastMixer._run\<close>, are embedded as functions over an explicit world: a
  filesystem and the trace of the calls made to the collaborators (the operating system,
  the text-to-speech client, the audio library). Every call that can raise returns a sum,
  \<open>Inl\<close> the exception. The collaborators are not part of the repository: what they
  answer is a parameter (\<open>env\<close>), a function of the whole history, so a theorem holds
  for every behaviour they can show. Logging (\<^verbatim>\<open>print\<close>) is left out.

  Strings are byte strings: a character beyond ASCII is its UTF-8 bytes, whose order is
  the order of the code points Python compares, and whose whitespace \<open>strip\<close>
  recognises in its encoded form.
\<close>

subsection \<open>Data model\<close>

type_synonym path = string
type_synonym bytes = "nat list"

record VoiceConfig =
  stability :: real
  similarity_boost :: real
  style :: real
  use_speaker_boost :: bool
  model_id :: string
  output_format :: string
  apply_text_normalization :: string

definition default_VoiceConfig :: VoiceConfig where
  "default_VoiceConfig =
     \<lparr>stability = 45 / 100, similarity_boost = 85 / 100, style = 65 / 100,
      use_speaker_boost = True, model_id = ''eleven_multilingual_v2'',
      output_format = ''mp3_44100_128'', apply_text_normalization = ''auto''\<rparr>"

record AudioConfig =
  format :: string
  sample_rate :: int
  channels :: int
  bitrate :: string
  normalize :: bool
  target_loudness :: real
  compression_ratio :: real

definition default_AudioConfig :: AudioConfig where
  "default_AudioConfig =
     \<lparr>format = ''mp3'', sample_rate = 48000, channels = 2, bitrate = ''256k'',
      normalize = True, target_loudness = - 14, compression_ratio = 2\<rparr>"

text \<open>
  An entry of \<^verbatim>\<open>voice_configs\<close>, as \<^verbatim>\<open>add_voice\<close> builds it: the dictionary
  with the keys \<^verbatim>\<open>voice_id\<close> and \<^verbatim>\<open>config\<close>.
\<close>

record voice_entry =
  voice_id :: string
  config :: VoiceConfig

record PodcastAudioGenerator =
  voice_configs :: "string \<rightharpoonup> voice_entry"
  audio_config :: AudioConfig
  output_dir :: string

record PodcastMixer =
  mixer_audio_config :: AudioConfig
  mixer_output_dir :: string

definition add_voice ::
  "PodcastAudioGenerator \<Rightarrow> string \<Rightarrow> string \<Rightarrow> VoiceConfig option \<Rightarrow> PodcastAudioGenerator" where
  "add_voice g name vid cfg =
     g\<lparr>voice_configs := (voice_configs g)
          (name \<mapsto> \<lparr>voice_id = vid,
                     config = (case cfg of None \<Rightarrow> default_VoiceConfig | Some c \<Rightarrow> c)\<rparr>)\<rparr>"

text \<open>
  What \<^verbatim>\<open>_run\<close> can find in the list it is given: a dictionary, whose values are
  strings or values without a \<^verbatim>\<open>strip\<close> method (\<^verbatim>\<open>None\<close>, a number), or an
  instance of the declared schema class \<^verbatim>\<open>Dialogue\<close>, which has the two fields and
  no \<^verbatim>\<open>get\<close> method.
\<close>

datatype pyval = PyStr string | PyNone

datatype segment = DictSegment "(string \<times> pyval) list" | DialogueObject string string

datatype error =
    AttributeError | IndexError | ValueError
  | FileNotFoundError | FileExistsError | NotADirectoryError | IsADirectoryError | OSError
  | ProviderError | CodecError

subsection \<open>The world: filesystem, audio values, trace\<close>

datatype node = File bytes | Dir

type_synonym fs = "path \<Rightarrow> node option"

text \<open>
  An audio value of the library is the term of the calls that built it:
  \<^verbatim>\<open>AudioSegment.from_file\<close>, \<^verbatim>\<open>AudioSegment.silent\<close>, \<^verbatim>\<open>a + b\<close>,
  \<^verbatim>\<open>a.append(b, crossfade=c)\<close>, \<^verbatim>\<open>a.normalize()\<close> and \<^verbatim>\<open>a + n\<close> for a number.
\<close>

datatype audio =
    FromFile path bytes
  | Silent nat
  | Plus audio audio
  | Append audio audio int
  | Normalize audio
  | Gain audio int

record tts_request =
  req_text :: string
  req_voice_id :: string
  req_model_id :: string
  req_output_format :: string
  req_stability :: real
  req_similarity_boost :: real
  req_style :: real
  req_use_speaker_boost :: bool

datatype event =
    EMakeDirs path
  | EExists path
  | EConvert tts_request
  | EWrite path bytes
  | EFromFile path
  | ESilent nat
  | EPlus audio audio
  | EAppend audio audio int
  | ENormalize audio
  | EGain audio int
  | EExport audio path string "string option" "string list"

record world =
  fsys :: fs
  trace :: "event list"

text \<open>
  A failed write or export: the exception, and the content the target file was left
  with if the call got as far as creating it.
\<close>

datatype fault = Fault error "bytes option"

record env =
  env_cwd :: path
  env_mkdir_fault :: "world \<Rightarrow> path \<Rightarrow> (error \<times> nat) option"
  env_tts :: "world \<Rightarrow> tts_request \<Rightarrow> error + bytes list"
  env_write_fault :: "world \<Rightarrow> path \<Rightarrow> bytes \<Rightarrow> fault option"
  env_codec_fault :: "world \<Rightarrow> audio \<Rightarrow> error option"
  env_export :: "world \<Rightarrow> audio \<Rightarrow> path \<Rightarrow> string \<Rightarrow> string option \<Rightarrow> string list \<Rightarrow> fault + bytes"

type_synonym 'a io = "world \<Rightarrow> (error + 'a) \<times> world"

definition returnE :: "'a \<Rightarrow> 'a io" where
  "returnE x w = (Inr x, w)"

definition raiseE :: "error \<Rightarrow> 'a io" where
  "raiseE e w = (Inl e, w)"

definition bindE :: "'a io \<Rightarrow> ('a \<Rightarrow> 'b io) \<Rightarrow> 'b io" where
  "bindE m f w = (case m w of (Inl e, w') \<Rightarrow> (Inl e, w') | (Inr x, w') \<Rightarrow> f x w')"

definition tryE :: "'a io \<Rightarrow> (error \<Rightarrow> 'a io) \<Rightarrow> 'a io" where
  "tryE m h w = (case m w of (Inl e, w') \<Rightarrow> h e w' | (Inr x, w') \<Rightarrow> (Inr x, w'))"

definition emit :: "event \<Rightarrow> world \<Rightarrow> world" where
  "emit e w = w\<lparr>trace := trace w @ [e]\<rparr>"

subsection \<open>Strings and paths\<close>

text \<open>
  \<^verbatim>\<open>str.strip()\<close> removes the leading and trailing characters for which
  \<^verbatim>\<open>str.isspace()\<close> holds: U+0009 to U+000D, U+001C to U+0020, U+0085, U+00A0,
  U+1680, U+2000 to U+200A, U+2028, U+2029, U+202F, U+205F and U+3000. On the UTF-8 bytes
  of a string these are the one-byte codes 9 to 13 and 28 to 32, the two-byte sequences
  C2 85 and C2 A0, and the three-byte sequences E1 9A 80, E2 80 80 to E2 80 8A, E2 80 A8,
  E2 80 A9, E2 80 AF, E2 81 9F and E3 80 80. In well-formed UTF-8 none of these
  sequences can begin or end inside another character, so they are matched at the two
  ends of the byte string.
\<close>

definition ascii_space :: "nat \<Rightarrow> bool" where
  "ascii_space a = ((9 \<le> a \<and> a \<le> 13) \<or> (28 \<le> a \<and> a \<le> 32))"

definition space2 :: "nat \<Rightarrow> nat \<Rightarrow> bool" where
  "space2 a b = (a = 0xC2 \<and> (b = 0x85 \<or> b = 0xA0))"

definition space3 :: "nat \<Rightarrow> nat \<Rightarrow> nat \<Rightarrow> bool" where
  "space3 a b c =
     ((a = 0xE1 \<and> b = 0x9A \<and> c = 0x80) \<or>
      (a = 0xE2 \<and> b = 0x80 \<and>
         ((0x80 \<le> c \<and> c \<le> 0x8A) \<or> c = 0xA8 \<or> c = 0xA9 \<or> c = 0xAF)) \<or>
      (a = 0xE2 \<and> b = 0x81 \<and> c = 0x9F) \<or>
      (a = 0xE3 \<and> b = 0x80 \<and> c = 0x80))"

fun lstrip :: "string \<Rightarrow> string" where
  "lstrip (a # b # c # s) =
     (if ascii_space (of_char a) then lstrip (b # c # s)
      else if space2 (of_char a) (of_char b) then lstrip (c # s)
      else if space3 (of_char a) (of_char b) (of_char c) then lstrip s
      else a # b # c # s)"
| "lstrip [a, b] =
     (if ascii_space (of_char a) then lstrip [b]
      else if space2 (of_char a) (of_char b) then []
      else [a, b])"
| "lstrip [a] = (if ascii_space (of_char a) then [] else [a])"
| "lstrip [] = []"

text \<open>The same from the other end, on the reversed bytes.\<close>

fun rstrip_rev :: "string \<Rightarrow> string" where
  "rstrip_rev (c # b # a # s) =
     (if ascii_space (of_char c) then rstrip_rev (b # a # s)
      else if space2 (of_char b) (of_char c) then rstrip_rev (a # s)
      else if space3 (of_char a) (of_char b) (of_char c) then rstrip_rev s
      else c # b # a # s)"
| "rstrip_rev [c, b] =
     (if ascii_space (of_char c) then rstrip_rev [b]
      else if space2 (of_char b) (of_char c) then []
      else [c, b])"
| "rstrip_rev [c] = (if ascii_space (of_char c) then [] else [c])"
| "rstrip_rev [] = []"

definition rstrip :: "string \<Rightarrow> string" where
  "rstrip s = rev (rstrip_rev (rev s))"

definition strip :: "string \<Rightarrow> string" where
  "strip s = rstrip (lstrip s)"

definition digit_char :: "nat \<Rightarrow> char" where
  "digit_char d =
     (if d = 0 then CHR ''0'' else if d = 1 then CHR ''1'' else if d = 2 then CHR ''2''
      else if d = 3 then CHR ''3'' else if d = 4 then CHR ''4'' else if d = 5 then CHR ''5''
      else if d = 6 then CHR ''6'' else if d = 7 then CHR ''7'' else if d = 8 then CHR ''8''
      else CHR ''9'')"

fun dec :: "nat \<Rightarrow> string" where
  "dec n = (if n < 10 then [digit_char n] else dec (n div 10) @ [digit_char (n mod 10)])"

declare dec.simps [simp del]

text \<open>\<^verbatim>\<open>{index:03d}\<close> and \<^verbatim>\<open>str(n)\<close>.\<close>

definition fmt_03d :: "nat \<Rightarrow> string" where
  "fmt_03d n = replicate (3 - length (dec n)) (CHR ''0'') @ dec n"

definition str_int :: "int \<Rightarrow> string" where
  "str_int i = (if i < 0 then CHR ''-'' # dec (nat (- i)) else dec (nat i))"

text \<open>\<^verbatim>\<open>os.path.isabs\<close> and \<^verbatim>\<open>os.path.join\<close> of two components, on POSIX.\<close>

definition isabs :: "path \<Rightarrow> bool" where
  "isabs p = (case p of [] \<Rightarrow> False | c # _ \<Rightarrow> c = CHR ''/'')"

definition join :: "path \<Rightarrow> path \<Rightarrow> path" where
  "join a b = (if isabs b then b
               else if a = [] \<or> last a = CHR ''/'' then a @ b
               else a @ ''/'' @ b)"

text \<open>
  The operating system reads a relative path from the current directory; the filesystem
  is keyed by the resolved path.
\<close>

definition resolve :: "env \<Rightarrow> path \<Rightarrow> path" where
  "resolve en p = (if isabs p then p else join (env_cwd en) p)"

text \<open>The directories \<^verbatim>\<open>os.makedirs\<close> makes for a path: its ancestors, then itself.\<close>

definition dir_chain :: "path \<Rightarrow> path list" where
  "dir_chain q = map (\<lambda>i. take i q)
     (filter (\<lambda>i. i = length q \<or> q ! i = CHR ''/'') [1..<Suc (length q)])"

definition is_file :: "fs \<Rightarrow> path \<Rightarrow> bool" where
  "is_file f p = (case f p of Some (File _) \<Rightarrow> True | _ \<Rightarrow> False)"

definition is_dir :: "fs \<Rightarrow> path \<Rightarrow> bool" where
  "is_dir f p = (f p = Some Dir)"

definition mk_dirs :: "path list \<Rightarrow> fs \<Rightarrow> fs" where
  "mk_dirs ds f = (\<lambda>p. if p \<in> set ds then Some Dir else f p)"

subsection \<open>The collaborators' calls\<close>

text \<open>
  \<^verbatim>\<open>os.makedirs(p, exist_ok=True)\<close>: an existing directory is accepted, a regular
  file in the way raises, and the system may refuse after some of the directories are
  made.
\<close>

definition makedirs :: "env \<Rightarrow> path \<Rightarrow> unit io" where
  "makedirs en p w =
     (let w1 = emit (EMakeDirs p) w; q = resolve en p; chain = dir_chain q in
      if p = [] then (Inl FileNotFoundError, w1)
      else if is_file (fsys w1) q then (Inl FileExistsError, w1)
      else if list_ex (is_file (fsys w1)) chain then (Inl NotADirectoryError, w1)
      else (case env_mkdir_fault en w1 q of
              Some (e, n) \<Rightarrow> (Inl e, w1\<lparr>fsys := mk_dirs (take n chain) (fsys w1)\<rparr>)
            | None \<Rightarrow> (Inr (), w1\<lparr>fsys := mk_dirs chain (fsys w1)\<rparr>)))"

text \<open>\<^verbatim>\<open>os.path.exists\<close> never raises.\<close>

definition path_exists :: "env \<Rightarrow> path \<Rightarrow> bool io" where
  "path_exists en p w = (Inr (fsys w (resolve en p) \<noteq> None), emit (EExists p) w)"

text \<open>\<^verbatim>\<open>with open(p, "wb") as out: out.write(b)\<close>.\<close>

definition write_file :: "env \<Rightarrow> path \<Rightarrow> bytes \<Rightarrow> unit io" where
  "write_file en p b w =
     (let w1 = emit (EWrite p b) w; q = resolve en p in
      if is_dir (fsys w1) q then (Inl IsADirectoryError, w1)
      else (case env_write_fault en w1 q b of
              None \<Rightarrow> (Inr (), w1\<lparr>fsys := (fsys w1)(q \<mapsto> File b)\<rparr>)
            | Some (Fault e None) \<Rightarrow> (Inl e, w1)
            | Some (Fault e (Some b')) \<Rightarrow> (Inl e, w1\<lparr>fsys := (fsys w1)(q \<mapsto> File b')\<rparr>)))"

text \<open>\<^verbatim>\<open>client.text_to_speech.convert(...)\<close> and the join of its chunks.\<close>

definition convert :: "env \<Rightarrow> tts_request \<Rightarrow> bytes io" where
  "convert en r w =
     (let w1 = emit (EConvert r) w in
      case env_tts en w1 r of Inl e \<Rightarrow> (Inl e, w1) | Inr chunks \<Rightarrow> (Inr (concat chunks), w1))"

text \<open>A call of the audio library returns its value unless the library raises.\<close>

definition codec :: "env \<Rightarrow> audio \<Rightarrow> audio io" where
  "codec en a w = (case env_codec_fault en w a of Some e \<Rightarrow> (Inl e, w) | None \<Rightarrow> (Inr a, w))"

definition from_file :: "env \<Rightarrow> path \<Rightarrow> audio io" where
  "from_file en p w =
     (let w1 = emit (EFromFile p) w in
      case fsys w1 (resolve en p) of
        None \<Rightarrow> (Inl FileNotFoundError, w1)
      | Some Dir \<Rightarrow> (Inl IsADirectoryError, w1)
      | Some (File b) \<Rightarrow> codec en (FromFile p b) w1)"

definition silent :: "env \<Rightarrow> nat \<Rightarrow> audio io" where
  "silent en d w = codec en (Silent d) (emit (ESilent d) w)"

definition plus_seg :: "env \<Rightarrow> audio \<Rightarrow> audio \<Rightarrow> audio io" where
  "plus_seg en a b w = codec en (Plus a b) (emit (EPlus a b) w)"

definition append_seg :: "env \<Rightarrow> audio \<Rightarrow> audio \<Rightarrow> int \<Rightarrow> audio io" where
  "append_seg en a b c w = codec en (Append a b c) (emit (EAppend a b c) w)"

definition normalize_seg :: "env \<Rightarrow> audio \<Rightarrow> audio io" where
  "normalize_seg en a w = codec en (Normalize a) (emit (ENormalize a) w)"

definition gain_seg :: "env \<Rightarrow> audio \<Rightarrow> int \<Rightarrow> audio io" where
  "gain_seg en a n w = codec en (Gain a n) (emit (EGain a n) w)"

definition export ::
  "env \<Rightarrow> audio \<Rightarrow> path \<Rightarrow> string \<Rightarrow> string option \<Rightarrow> string list \<Rightarrow> unit io" where
  "export en a p fm br ps w =
     (let w1 = emit (EExport a p fm br ps) w; q = resolve en p in
      if is_dir (fsys w1) q then (Inl IsADirectoryError, w1)
      else (case env_export en w1 a q fm br ps of
              Inr b \<Rightarrow> (Inr (), w1\<lparr>fsys := (fsys w1)(q \<mapsto> File b)\<rparr>)
            | Inl (Fault e None) \<Rightarrow> (Inl e, w1)
            | Inl (Fault e (Some b')) \<Rightarrow> (Inl e, w1\<lparr>fsys := (fsys w1)(q \<mapsto> File b')\<rparr>)))"

subsection \<open>\<^verbatim>\<open>PodcastAudioGenerator._run\<close>\<close>

text \<open>\<^verbatim>\<open>segment.get(key, '').strip()\<close>.\<close>

definition get_strip :: "segment \<Rightarrow> string \<Rightarrow> error + string" where
  "get_strip seg k =
     (case seg of
        DialogueObject _ _ \<Rightarrow> Inl AttributeError
      | DictSegment d \<Rightarrow>
          (case map_of d k of
             None \<Rightarrow> Inr (strip [])
           | Some (PyStr s) \<Rightarrow> Inr (strip s)
           | Some PyNone \<Rightarrow> Inl AttributeError))"

definition filename_of :: "PodcastAudioGenerator \<Rightarrow> nat \<Rightarrow> string \<Rightarrow> path" where
  "filename_of g index speaker =
     output_dir g @ ''/'' @ fmt_03d index @ ''_'' @ speaker @ ''.'' @ format (audio_config g)"

definition request_of :: "voice_entry \<Rightarrow> string \<Rightarrow> tts_request" where
  "request_of vc txt =
     \<lparr>req_text = txt, req_voice_id = voice_id vc,
      req_model_id = model_id (config vc), req_output_format = output_format (config vc),
      req_stability = stability (config vc),
      req_similarity_boost = similarity_boost (config vc),
      req_style = style (config vc),
      req_use_speaker_boost = use_speaker_boost (config vc)\<rparr>"

text \<open>Lines 107 to 119: the pass made when \<^verbatim>\<open>audio_config.normalize\<close> is set.\<close>

definition normalize_pass :: "PodcastAudioGenerator \<Rightarrow> env \<Rightarrow> path \<Rightarrow> unit io" where
  "normalize_pass g en filename =
     bindE (from_file en filename) (\<lambda>audio.
     bindE (normalize_seg en audio) (\<lambda>normalized.
     bindE (gain_seg en normalized 4) (\<lambda>normalized.
       export en normalized filename (format (audio_config g))
         (Some (bitrate (audio_config g)))
         [''-ar'', str_int (sample_rate (audio_config g))])))"

text \<open>Lines 86 to 121: the body of the \<^verbatim>\<open>try\<close>, up to the name it appends.\<close>

definition try_body ::
  "PodcastAudioGenerator \<Rightarrow> env \<Rightarrow> nat \<Rightarrow> string \<Rightarrow> string \<Rightarrow> voice_entry \<Rightarrow> path io" where
  "try_body g en index speaker txt vc =
     bindE (convert en (request_of vc txt)) (\<lambda>audio_bytes.
       let filename = filename_of g index speaker in
       bindE (write_file en filename audio_bytes) (\<lambda>_.
       bindE (if normalize (audio_config g) then normalize_pass g en filename
              else returnE ()) (\<lambda>_.
         returnE filename)))"

text \<open>Lines 85 to 126: the \<^verbatim>\<open>try\<close> statement, on the list \<^verbatim>\<open>audio_files\<close>.\<close>

definition try_line ::
  "PodcastAudioGenerator \<Rightarrow> env \<Rightarrow> nat \<Rightarrow> string \<Rightarrow> string \<Rightarrow> voice_entry \<Rightarrow> path list
     \<Rightarrow> path list io" where
  "try_line g en index speaker txt vc audio_files =
     tryE (bindE (try_body g en index speaker txt vc)
             (\<lambda>filename. returnE (audio_files @ [filename])))
          (\<lambda>e. returnE audio_files)"

text \<open>Lines 72 to 126: the loop, from position \<open>index\<close> on.\<close>

fun run_loop ::
  "PodcastAudioGenerator \<Rightarrow> env \<Rightarrow> nat \<Rightarrow> segment list \<Rightarrow> path list \<Rightarrow> path list io" where
  "run_loop g en index [] audio_files w = (Inr audio_files, w)"
| "run_loop g en index (seg # rest) audio_files w =
     (case get_strip seg ''speaker'' of
        Inl e \<Rightarrow> (Inl e, w)
      | Inr speaker \<Rightarrow>
     (case get_strip seg ''text'' of
        Inl e \<Rightarrow> (Inl e, w)
      | Inr txt \<Rightarrow>
          if speaker = [] \<or> txt = [] then run_loop g en (Suc index) rest audio_files w
          else (case voice_configs g speaker of
                  None \<Rightarrow> run_loop g en (Suc index) rest audio_files w
                | Some vc \<Rightarrow>
                    (case try_line g en index speaker txt vc audio_files w of
                       (Inl e, w') \<Rightarrow> (Inl e, w')
                     | (Inr audio_files', w') \<Rightarrow>
                         run_loop g en (Suc index) rest audio_files' w'))))"

definition PodcastAudioGenerator_run ::
  "PodcastAudioGenerator \<Rightarrow> env \<Rightarrow> segment list \<Rightarrow> path list io" where
  "PodcastAudioGenerator_run g en dialogue =
     bindE (makedirs en (output_dir g)) (\<lambda>_.
     bindE (run_loop g en 0 dialogue []) (\<lambda>audio_files.
       returnE (sort audio_files)))"

subsection \<open>\<^verbatim>\<open>PodcastMixer._run\<close>\<close>

definition segment_path_of :: "env \<Rightarrow> path \<Rightarrow> path" where
  "segment_path_of en af = (if isabs af then af else join (env_cwd en) af)"

text \<open>Lines 154 to 161: \<open>None\<close> is the \<^verbatim>\<open>return ""\<close> of line 160.\<close>

fun validate :: "env \<Rightarrow> path list \<Rightarrow> path list \<Rightarrow> path list option io" where
  "validate en [] validated w = (Inr (Some validated), w)"
| "validate en (af # rest) validated w =
     (let segment_path = segment_path_of en af in
      case path_exists en segment_path w of
        (Inl e, w') \<Rightarrow> (Inl e, w')
      | (Inr ok, w') \<Rightarrow>
          if \<not> ok then (Inr None, w')
          else validate en rest (validated @ [segment_path]) w')"

text \<open>Lines 168 to 172: one round of the loop.\<close>

definition mix_step :: "env \<Rightarrow> int \<Rightarrow> audio \<Rightarrow> path \<Rightarrow> audio io" where
  "mix_step en crossfade mixed audio_file =
     bindE (from_file en audio_file) (\<lambda>next_segment.
     bindE (silent en 200) (\<lambda>silence.
     bindE (plus_seg en silence next_segment) (\<lambda>next_segment.
       append_seg en mixed next_segment crossfade)))"

fun mix_loop :: "env \<Rightarrow> int \<Rightarrow> path list \<Rightarrow> audio \<Rightarrow> audio io" where
  "mix_loop en crossfade [] mixed w = (Inr mixed, w)"
| "mix_loop en crossfade (audio_file # rest) mixed w =
     (case mix_step en crossfade mixed audio_file w of
        (Inl e, w') \<Rightarrow> (Inl e, w')
      | (Inr mixed', w') \<Rightarrow> mix_loop en crossfade rest mixed' w')"

definition output_file_of :: "PodcastMixer \<Rightarrow> path" where
  "output_file_of m = join (mixer_output_dir m) ''podcast_final.mp3''"

definition export_params :: "string list" where
  "export_params = [''-q:a'', ''0'', ''-ar'', ''48000'']"

text \<open>Lines 164 to 190.\<close>

definition mix_files :: "PodcastMixer \<Rightarrow> env \<Rightarrow> int \<Rightarrow> path list \<Rightarrow> string io" where
  "mix_files m en crossfade validated_audio_files =
     (case validated_audio_files of
        [] \<Rightarrow> raiseE IndexError
      | first # rest \<Rightarrow>
          bindE (from_file en first) (\<lambda>mixed.
          bindE (mix_loop en crossfade rest mixed) (\<lambda>mixed.
            let output_file = output_file_of m in
            bindE (export en mixed output_file ''mp3'' None export_params) (\<lambda>_.
              returnE output_file))))"

text \<open>Lines 150 to 190: the body of the \<^verbatim>\<open>try\<close>.\<close>

definition mixer_body :: "PodcastMixer \<Rightarrow> env \<Rightarrow> path list \<Rightarrow> int \<Rightarrow> string io" where
  "mixer_body m en audio_files crossfade =
     bindE (makedirs en (mixer_output_dir m)) (\<lambda>_.
     bindE (validate en audio_files []) (\<lambda>v.
       case v of
         None \<Rightarrow> returnE []
       | Some validated_audio_files \<Rightarrow> mix_files m en crossfade validated_audio_files))"

text \<open>
  Lines 139 to 196. The argument \<^verbatim>\<open>crossfade\<close> is optional: \<open>None\<close> is the call
  that leaves it out and gets the default 50.
\<close>

definition PodcastMixer_run ::
  "PodcastMixer \<Rightarrow> env \<Rightarrow> path list \<Rightarrow> int option \<Rightarrow> string io" where
  "PodcastMixer_run m en audio_files crossfade_arg =
     (let crossfade = (case crossfade_arg of None \<Rightarrow> 50 | Some c \<Rightarrow> c) in
      if audio_files = [] then returnE []
      else tryE (mixer_body m en audio_files crossfade) (\<lambda>e. returnE []))"

subsection \<open>What the claims speak of\<close>

text \<open>
  An element \<^verbatim>\<open>_run\<close> can read: a dictionary whose \<^verbatim>\<open>speaker\<close> and
  \<^verbatim>\<open>text\<close>, where present, are strings.
\<close>

definition str_field :: "(string \<times> pyval) list \<Rightarrow> string \<Rightarrow> bool" where
  "str_field d k = (case map_of d k of Some PyNone \<Rightarrow> False | _ \<Rightarrow> True)"

definition dict_like :: "segment \<Rightarrow> bool" where
  "dict_like seg =
     (case seg of
        DictSegment d \<Rightarrow> str_field d ''speaker'' \<and> str_field d ''text''
      | DialogueObject _ _ \<Rightarrow> False)"

subsection \<open>Concrete inputs\<close>

text \<open>An environment in which no call raises, and one whose speech provider is down.\<close>

definition env_ok :: env where
  "env_ok =
     \<lparr>env_cwd = ''/work'',
      env_mkdir_fault = (\<lambda>_ _. None),
      env_tts = (\<lambda>_ _. Inr [[1, 2], [3]]),
      env_write_fault = (\<lambda>_ _ _. None),
      env_codec_fault = (\<lambda>_ _. None),
      env_export = (\<lambda>_ _ _ _ _ _. Inr [9])\<rparr>"

definition env_down :: env where
  "env_down = env_ok\<lparr>env_tts := (\<lambda>_ _. Inl ProviderError)\<rparr>"

definition world0 :: world where
  "world0 = \<lparr>fsys = (\<lambda>_. None), trace = []\<rparr>"

definition voice_b :: voice_entry where
  "voice_b = \<lparr>voice_id = ''voice-b'', config = default_VoiceConfig\<rparr>"

definition generator0 :: PodcastAudioGenerator where
  "generator0 =
     add_voice
       (add_voice \<lparr>voice_configs = (\<lambda>_. None), audio_config = default_AudioConfig,
                    output_dir = ''output/audio-files''\<rparr> ''A'' ''voice-a'' None)
       ''B'' ''voice-b'' None"

definition line :: "string \<Rightarrow> string \<Rightarrow> segment" where
  "line sp tx = DictSegment [(''speaker'', PyStr sp), (''text'', PyStr tx)]"

definition mixer0 :: PodcastMixer where
  "mixer0 = \<lparr>mixer_audio_config = default_AudioConfig, mixer_output_dir = ''output/podcast''\<rparr>"

definition world1 :: world where
  "world1 =
     \<lparr>fsys = [''/work/000_A.mp3'' \<mapsto> File [1, 2, 3], ''/work/002_A.mp3'' \<mapsto> File [4, 5]],
      trace = []\<rparr>"

text \<open>
  A step from one world to a later one that only adds to the trace and leaves every
  path but \<open>out\<close> as it was.
\<close>

definition frame :: "path \<Rightarrow> world \<Rightarrow> world \<Rightarrow> bool" where
  "frame out w w' \<longleftrightarrow>
     (\<exists>evs. trace w' = trace w @ evs) \<and> (\<forall>q. q \<noteq> out \<longrightarrow> fsys w' q = fsys w q)"

text \<open>
  The mix in the words of the specification: the first file is decoded and is the
  running mix; each later file, in order, is decoded, prefixed with 200 ms of silence and
  appended to the running mix with the crossfade. Then the calls this takes, in order.
\<close>

definition content_of :: "fs \<Rightarrow> path \<Rightarrow> bytes" where
  "content_of f q = (case f q of Some (File b) \<Rightarrow> b | _ \<Rightarrow> [])"

definition decoded :: "env \<Rightarrow> fs \<Rightarrow> path \<Rightarrow> audio" where
  "decoded en f p = FromFile p (content_of f (resolve en p))"

definition spec_mix :: "env \<Rightarrow> fs \<Rightarrow> int \<Rightarrow> audio \<Rightarrow> path list \<Rightarrow> audio" where
  "spec_mix en f crossfadeMs acc rest =
     foldl (\<lambda>mixed p. Append mixed (Plus (Silent 200) (decoded en f p)) crossfadeMs) acc rest"

fun spec_mix_calls :: "env \<Rightarrow> fs \<Rightarrow> int \<Rightarrow> audio \<Rightarrow> path list \<Rightarrow> event list" where
  "spec_mix_calls en f crossfadeMs acc [] = []"
| "spec_mix_calls en f crossfadeMs acc (p # rest) =
     [EFromFile p, ESilent 200, EPlus (Silent 200) (decoded en f p),
      EAppend acc (Plus (Silent 200) (decoded en f p)) crossfadeMs] @
     spec_mix_calls en f crossfadeMs
       (Append acc (Plus (Silent 200) (decoded en f p)) crossfadeMs) rest"

definition is_export :: "event \<Rightarrow> bool" where
  "is_export e = (case e of EExport _ _ _ _ _ \<Rightarrow> True | _ \<Rightarrow> False)"

text \<open>
  The normalisation pass in the words of the specification: the written file is opened
  again, normalised, raised by 4 dB, and exported over the same path with the configured
  format, bitrate and sample rate.
\<close>

definition pass_calls :: "PodcastAudioGenerator \<Rightarrow> path \<Rightarrow> bytes \<Rightarrow> event list" where
  "pass_calls g filename b =
     [EFromFile filename,
      ENormalize (FromFile filename b),
      EGain (Normalize (FromFile filename b)) 4,
      EExport (Gain (Normalize (FromFile filename b)) 4) filename
        (format (audio_config g)) (Some (bitrate (audio_config g)))
        [''-ar'', str_int (sample_rate (audio_config g))]]"

definition is_pass_call :: "event \<Rightarrow> bool" where
  "is_pass_call e =
     (case e of
        EFromFile _ \<Rightarrow> True
      | ENormalize _ \<Rightarrow> True
      | EGain _ _ \<Rightarrow> True
      | EExport _ _ _ _ _ \<Rightarrow> True
      | _ \<Rightarrow> False)"

definition generator_plain :: PodcastAudioGenerator where
  "generator_plain = generator0\<lparr>audio_config := default_AudioConfig\<lparr>normalize := False\<rparr>\<rparr>"

text \<open>
  The string \<^verbatim>\<open>d.get(k, '')\<close> gives for a field that is a string or is missing.
\<close>

definition field :: "(string \<times> pyval) list \<Rightarrow> string \<Rightarrow> string" where
  "field d k = (case map_of d k of Some (PyStr s) \<Rightarrow> s | _ \<Rightarrow> [])"

text \<open>
  What one line contributes, in the words of the specification: nothing when it is
  skipped or when its synthesis, write or normalisation raises, its path when all of
  them complete. Then the paths a dialogue produces, line after line, each line starting
  from the world the line before it left.
\<close>

definition line_outcome ::
  "PodcastAudioGenerator \<Rightarrow> env \<Rightarrow> nat \<Rightarrow> segment \<Rightarrow> world \<Rightarrow> path option \<times> world" where
  "line_outcome g en index seg w =
     (case (get_strip seg ''speaker'', get_strip seg ''text'') of
        (Inr speaker, Inr txt) \<Rightarrow>
          if speaker = [] \<or> txt = [] then (None, w)
          else (case voice_configs g speaker of
                  None \<Rightarrow> (None, w)
                | Some vc \<Rightarrow>
                    (case try_body g en index speaker txt vc w of
                       (Inl e, w') \<Rightarrow> (None, w')
                     | (Inr f, w') \<Rightarrow> (Some f, w')))
      | _ \<Rightarrow> (None, w))"

fun produced ::
  "PodcastAudioGenerator \<Rightarrow> env \<Rightarrow> nat \<Rightarrow> segment list \<Rightarrow> world \<Rightarrow> path list \<times> world" where
  "produced g en index [] w = ([], w)"
| "produced g en index (seg # rest) w =
     (case line_outcome g en index seg w of
        (None, w') \<Rightarrow> produced g en (Suc index) rest w'
      | (Some f, w') \<Rightarrow>
          (case produced g en (Suc index) rest w' of (fs, w'') \<Rightarrow> (f # fs, w'')))"

text \<open>
  An audio library that cannot decode, and a speech provider that fails for one voice.
\<close>

definition env_corrupt :: env where
  "env_corrupt = env_ok\<lparr>env_codec_fault := (\<lambda>_ _. Some CodecError)\<rparr>"

definition env_b_down :: env where
  "env_b_down =
     env_ok\<lparr>env_tts := (\<lambda>_ r. if req_voice_id r = ''voice-b'' then Inl ProviderError
                              else Inr [[1, 2], [3]])\<rparr>"

definition voice_a :: voice_entry where
  "voice_a = \<lparr>voice_id = ''voice-a'', config = default_VoiceConfig\<rparr>"

section \<open>Properties\<close>

subsection \<open>Stripping\<close>

lemmas strip_eval = strip_def rstrip_def ascii_space_def space2_def space3_def

lemma strip_examples:
  "strip [] = []"
  "strip '' a b  '' = ''a b''"
  "strip [CHR 0xE3, CHR 0x80, CHR 0x80] = []"
  "strip (CHR 0xC2 # CHR 0xA0 # ''A'') = ''A''"
  "strip (''A'' @ [CHR 0xE2, CHR 0x80, CHR 0x89, CHR 0x0A]) = ''A''"
  "strip [CHR 0xC3, CHR 0xA0] = [CHR 0xC3, CHR 0xA0]"
  by (simp_all add: strip_eval)

subsection \<open>The mixer returns, and what it returns\<close>

lemma mix_files_result:
  "mix_files m en c v w = (Inr s, w') \<Longrightarrow> s = output_file_of m"
  by (auto simp: mix_files_def bindE_def returnE_def raiseE_def Let_def
           split: list.splits prod.splits sum.splits)

lemma mixer_body_result:
  "mixer_body m en afs c w = (Inr s, w') \<Longrightarrow> s = [] \<or> s = output_file_of m"
  by (auto simp: mixer_body_def bindE_def returnE_def
           split: prod.splits sum.splits option.splits dest: mix_files_result)

lemma output_file_nonempty: "output_file_of m \<noteq> []"
  by (simp add: output_file_of_def join_def isabs_def)

subsection \<open>The generator's loop\<close>

lemma try_body_filename:
  "try_body g en i sp tx vc w = (Inr f, w') \<Longrightarrow> f = filename_of g i sp"
  by (auto simp: try_body_def bindE_def returnE_def Let_def
           split: prod.splits sum.splits if_splits)

lemma try_line_cases:
  "try_line g en i sp tx vc afs w =
     (case try_body g en i sp tx vc w of
        (Inl e, w') \<Rightarrow> (Inr afs, w')
      | (Inr f, w') \<Rightarrow> (Inr (afs @ [filename_of g i sp]), w'))"
  by (auto simp: try_line_def tryE_def bindE_def returnE_def
           split: prod.splits sum.splits dest: try_body_filename)

lemma get_strip_dict_like:
  "dict_like seg \<Longrightarrow>
     \<exists>sp tx. get_strip seg ''speaker'' = Inr sp \<and> get_strip seg ''text'' = Inr tx"
  by (auto simp: dict_like_def str_field_def get_strip_def
           split: segment.splits option.splits pyval.splits)

lemma get_strip_error: "get_strip seg k = Inl e \<Longrightarrow> e = AttributeError"
  by (auto simp: get_strip_def split: segment.splits option.splits pyval.splits)

lemma not_dict_like_raises:
  "\<not> dict_like seg \<Longrightarrow>
     get_strip seg ''speaker'' = Inl AttributeError \<or> get_strip seg ''text'' = Inl AttributeError"
  by (auto simp: dict_like_def str_field_def get_strip_def
           split: segment.splits option.splits pyval.splits)

lemma run_loop_returns:
  "list_all dict_like segs \<Longrightarrow> \<exists>afs' w'. run_loop g en i segs afs w = (Inr afs', w')"
proof (induction segs arbitrary: i afs w)
  case Nil
  then show ?case by simp
next
  case (Cons seg rest)
  from Cons.prems have d: "dict_like seg" and r: "list_all dict_like rest" by simp_all
  from get_strip_dict_like[OF d] obtain sp tx where
    g: "get_strip seg ''speaker'' = Inr sp" "get_strip seg ''text'' = Inr tx" by blast
  show ?case
    using g Cons.IH[OF r]
    by (auto simp: try_line_cases split: option.splits prod.splits sum.splits)
qed

lemma run_loop_aborts:
  "\<not> list_all dict_like segs \<Longrightarrow> \<exists>w'. run_loop g en i segs afs w = (Inl AttributeError, w')"
proof (induction segs arbitrary: i afs w)
  case Nil
  then show ?case by simp
next
  case (Cons seg rest)
  show ?case
  proof (cases "dict_like seg")
    case False
    from not_dict_like_raises[OF False] show ?thesis
      by (auto split: sum.splits dest: get_strip_error)
  next
    case True
    with Cons.prems have r: "\<not> list_all dict_like rest" by simp
    from get_strip_dict_like[OF True] obtain sp tx where
      g: "get_strip seg ''speaker'' = Inr sp" "get_strip seg ''text'' = Inr tx" by blast
    show ?thesis
      using g Cons.IH[OF r]
      by (auto simp: try_line_cases split: option.splits prod.splits sum.splits)
  qed
qed

lemma run_loop_append:
  "run_loop g en i (xs @ ys) afs w =
     (case run_loop g en i xs afs w of
        (Inl e, w') \<Rightarrow> (Inl e, w')
      | (Inr afs', w') \<Rightarrow> run_loop g en (i + length xs) ys afs' w')"
proof (induction xs arbitrary: i afs w)
  case Nil
  then show ?case by simp
next
  case (Cons seg rest)
  show ?case
    by (auto simp: Cons.IH try_line_cases split: option.splits prod.splits sum.splits)
qed

lemma get_strip_line:
  "get_strip (line sp tx) ''speaker'' = Inr (strip sp)"
  "get_strip (line sp tx) ''text'' = Inr (strip tx)"
  by (simp_all add: get_strip_def line_def)

lemma dict_like_line: "dict_like (line sp tx)"
  by (simp add: dict_like_def line_def str_field_def)

text \<open>
  C9. The two reads of lines 73 and 74 stand outside the \<^verbatim>\<open>try\<close>. When some element
  of the input is not a dictionary with string fields (an instance of the schema class
  \<^verbatim>\<open>Dialogue\<close> is such an element: it has no \<^verbatim>\<open>get\<close>), the loop raises
  \<^verbatim>\<open>AttributeError\<close> and the whole run returns no list, whatever the other lines
  are and whatever they produced; the run raises \<^verbatim>\<open>AttributeError\<close> itself whenever
  the directory call at its start returned.
\<close>

theorem non_dict_element_aborts_batch:
  assumes "seg \<in> set dialogue" and "\<not> dict_like seg"
  shows "(\<exists>w'. run_loop g en i dialogue afs w = (Inl AttributeError, w')) \<and>
         (\<exists>e w'. PodcastAudioGenerator_run g en dialogue w = (Inl e, w')) \<and>
         (\<forall>w1. makedirs en (output_dir g) w = (Inr (), w1) \<longrightarrow>
               (\<exists>w'. PodcastAudioGenerator_run g en dialogue w = (Inl AttributeError, w'))) \<and>
         \<not> dict_like (DialogueObject s t)"
proof -
  from assms have n: "\<not> list_all dict_like dialogue" by (auto simp: list_all_iff)
  have a: "\<exists>w'. run_loop g en i dialogue afs w = (Inl AttributeError, w')" for i afs w
    by (rule run_loop_aborts[OF n])
  obtain r w1 where m: "makedirs en (output_dir g) w = (r, w1)"
    by (cases "makedirs en (output_dir g) w")
  from a[of 0 "[]" w1] obtain w2 where
    l: "run_loop g en 0 dialogue [] w1 = (Inl AttributeError, w2)"
    by blast
  have b: "\<exists>e w'. PodcastAudioGenerator_run g en dialogue w = (Inl e, w')"
    using m l by (cases r) (auto simp: PodcastAudioGenerator_run_def bindE_def)
  have c: "\<exists>w'. PodcastAudioGenerator_run g en dialogue w = (Inl AttributeError, w')"
    if "makedirs en (output_dir g) w = (Inr (), w0)" for w0
    using that a[of 0 "[]" w0] by (auto simp: PodcastAudioGenerator_run_def bindE_def)
  show ?thesis using a b c by (simp add: dict_like_def)
qed

theorem non_dict_element_aborts_batch_witness:
  "DialogueObject ''B'' ''Hello'' \<in> set [line ''A'' ''Hi'', DialogueObject ''B'' ''Hello''] \<and>
   \<not> dict_like (DialogueObject ''B'' ''Hello'') \<and>
   (\<exists>w'. run_loop generator0 env_ok 0 [line ''A'' ''Hi'', DialogueObject ''B'' ''Hello''] []
           world0 = (Inl AttributeError, w')) \<and>
   (\<exists>e w'. PodcastAudioGenerator_run generator0 env_ok
             [line ''A'' ''Hi'', DialogueObject ''B'' ''Hello''] world0 = (Inl e, w'))"
  using non_dict_element_aborts_batch
    [of "DialogueObject ''B'' ''Hello''" "[line ''A'' ''Hi'', DialogueObject ''B'' ''Hello'']"
        generator0 env_ok 0 "[]" world0]
  by (simp add: dict_like_def)

lemma voice_b_registered: "voice_configs generator0 ''B'' = Some voice_b"
  by (simp add: generator0_def add_voice_def voice_b_def)

lemma try_body_env_down:
  "try_body g env_down i sp tx vc w = (Inl ProviderError, emit (EConvert (request_of vc tx)) w)"
  by (simp add: try_body_def bindE_def convert_def env_down_def env_ok_def Let_def)

lemma strip_plain: "strip ''B'' = ''B''" "strip ''Hello'' = ''Hello''"
  by (simp_all add: strip_eval)

subsection \<open>The filesystem and the trace\<close>

lemma fsys_emit [simp]: "fsys (emit e w) = fsys w"
  by (simp add: emit_def)

lemma trace_emit [simp]: "trace (emit e w) = trace w @ [e]"
  by (simp add: emit_def)

lemma dir_chain_prefix: "x \<in> set (dir_chain q) \<Longrightarrow> take (length x) q = x"
  by (auto simp: dir_chain_def)

lemma dir_chain_length: "x \<in> set (dir_chain q) \<Longrightarrow> length x \<le> length q"
  by (auto simp: dir_chain_def)

lemma dir_chain_self: "q \<noteq> [] \<Longrightarrow> q \<in> set (dir_chain q)"
proof -
  assume "q \<noteq> []"
  then have "length q \<in> {i \<in> set [1..<Suc (length q)]. i = length q \<or> q ! i = CHR ''/''}"
    by (cases q) auto
  then have "take (length q) q \<in> set (dir_chain q)"
    unfolding dir_chain_def set_map set_filter by (rule imageI)
  then show ?thesis by simp
qed

lemma resolve_nonempty: "p \<noteq> [] \<Longrightarrow> resolve en p \<noteq> []"
  by (simp add: resolve_def join_def)

lemma makedirs_trace: "makedirs en p w = (r, w1) \<Longrightarrow> trace w1 = trace w @ [EMakeDirs p]"
  by (auto simp: makedirs_def Let_def split: if_splits option.splits)

lemma mk_dirs_lookup:
  "\<not> list_ex (is_file f) chain \<Longrightarrow> set ds \<subseteq> set chain \<Longrightarrow>
     mk_dirs ds f q = f q \<or> (f q = None \<and> mk_dirs ds f q = Some Dir \<and> q \<in> set chain)"
proof (cases "q \<in> set ds")
  case False
  then show ?thesis by (simp add: mk_dirs_def)
next
  case True
  assume a: "\<not> list_ex (is_file f) chain" and b: "set ds \<subseteq> set chain"
  from True b have c: "q \<in> set chain" by auto
  with a have "\<not> is_file f q" by (auto simp: list_ex_iff)
  then have "f q = None \<or> f q = Some Dir"
    by (cases "f q") (auto simp: is_file_def split: node.splits)
  with True c show ?thesis by (auto simp: mk_dirs_def)
qed

lemma makedirs_cases:
  assumes "makedirs en p w = (r, w1)"
  shows "fsys w1 = fsys w \<or>
         (\<not> list_ex (is_file (fsys w)) (dir_chain (resolve en p)) \<and>
          (\<exists>n. fsys w1 = mk_dirs (take n (dir_chain (resolve en p))) (fsys w)))"
proof -
  have t: "\<exists>n. mk_dirs xs f = mk_dirs (take n xs) f" for xs :: "path list" and f
    by (rule exI[of _ "length xs"]) simp
  show ?thesis
    using assms t[of "dir_chain (resolve en p)" "fsys w"]
    by (auto simp: makedirs_def Let_def split: if_splits option.splits)
qed

lemma makedirs_fs:
  assumes "makedirs en p w = (r, w1)"
  shows "fsys w1 q = fsys w q \<or>
         (fsys w q = None \<and> fsys w1 q = Some Dir \<and> q \<in> set (dir_chain (resolve en p)))"
proof -
  from makedirs_cases[OF assms] show ?thesis
  proof
    assume "fsys w1 = fsys w"
    then show ?thesis by simp
  next
    assume "\<not> list_ex (is_file (fsys w)) (dir_chain (resolve en p)) \<and>
          (\<exists>n. fsys w1 = mk_dirs (take n (dir_chain (resolve en p))) (fsys w))"
    then obtain n where a: "\<not> list_ex (is_file (fsys w)) (dir_chain (resolve en p))"
      and b: "fsys w1 = mk_dirs (take n (dir_chain (resolve en p))) (fsys w)" by blast
    from mk_dirs_lookup[OF a set_take_subset, of n q] b show ?thesis by simp
  qed
qed

lemma makedirs_dir:
  assumes "makedirs en p w = (Inr (), w1)"
  shows "is_dir (fsys w1) (resolve en p)"
proof -
  from assms have "p \<noteq> []" by (auto simp: makedirs_def Let_def split: if_splits)
  then have "resolve en p \<in> set (dir_chain (resolve en p))"
    by (intro dir_chain_self resolve_nonempty)
  with assms show ?thesis
    by (auto simp: makedirs_def Let_def is_dir_def mk_dirs_def split: if_splits option.splits)
qed

lemma output_longer:
  "length (resolve en (mixer_output_dir m)) < length (resolve en (output_file_of m))"
  by (cases "mixer_output_dir m")
     (auto simp: resolve_def output_file_of_def join_def isabs_def split: list.splits)

lemma output_not_in_chain:
  "resolve en (output_file_of m) \<notin> set (dir_chain (resolve en (mixer_output_dir m)))"
  using output_longer[of en m] dir_chain_length by fastforce

lemma validate_spec:
  "validate en afs acc w = (r, w') \<Longrightarrow>
     fsys w' = fsys w \<and>
     (\<exists>k. trace w' = trace w @ map (\<lambda>p. EExists (segment_path_of en p)) (take k afs)) \<and>
     r = Inr (if \<forall>af\<in>set afs. fsys w (resolve en (segment_path_of en af)) \<noteq> None
              then Some (acc @ map (segment_path_of en) afs) else None)"
proof (induction afs arbitrary: acc w)
  case Nil
  then show ?case by simp
next
  case (Cons af rest)
  show ?case
  proof (cases "fsys w (resolve en (segment_path_of en af)) = None")
    case True
    with Cons.prems have "w' = emit (EExists (segment_path_of en af)) w" "r = Inr None"
      by (auto simp: path_exists_def Let_def)
    with True show ?thesis
      by (auto intro: exI[of _ 1])
  next
    case False
    with Cons.prems have v: "validate en rest (acc @ [segment_path_of en af])
        (emit (EExists (segment_path_of en af)) w) = (r, w')"
      by (auto simp: path_exists_def Let_def)
    from Cons.IH[OF v] obtain k where
      k: "trace w' = trace w @ [EExists (segment_path_of en af)] @
            map (\<lambda>p. EExists (segment_path_of en p)) (take k rest)"
      and f: "fsys w' = fsys w"
      and r: "r = Inr (if \<forall>af\<in>set rest. fsys w (resolve en (segment_path_of en af)) \<noteq> None
              then Some ((acc @ [segment_path_of en af]) @ map (segment_path_of en) rest) else None)"
      by auto
    from k have "trace w' = trace w @ map (\<lambda>p. EExists (segment_path_of en p)) (take (Suc k) (af # rest))"
      by simp
    with f r False show ?thesis by (auto simp del: take_Suc_Cons)
  qed
qed

lemma makedirs_files:
  assumes "makedirs en p w = (r, w1)"
  shows "fsys w1 q = Some (File b) \<longleftrightarrow> fsys w q = Some (File b)"
  using makedirs_fs[OF assms, of q] by auto

lemma makedirs_output:
  assumes "makedirs en (mixer_output_dir m) w = (r, w1)"
  shows "fsys w1 (resolve en (output_file_of m)) = fsys w (resolve en (output_file_of m))"
  using makedirs_fs[OF assms, of "resolve en (output_file_of m)"] output_not_in_chain[of en m]
  by auto


lemma resolve_env_ok:
  "resolve env_ok ''output/podcast'' = ''/work/output/podcast''"
  "resolve env_ok (segment_path_of env_ok ''missing.mp3'') = ''/work/missing.mp3''"
  "resolve env_ok (segment_path_of env_ok ''000_A.mp3'') = ''/work/000_A.mp3''"
  "resolve env_ok (segment_path_of env_ok ''002_A.mp3'') = ''/work/002_A.mp3''"
  by (simp_all add: resolve_def segment_path_of_def isabs_def join_def env_ok_def)

lemma missing_after_makedirs:
  "fsys (snd (makedirs env_ok (mixer_output_dir mixer0) world1))
     (resolve env_ok (segment_path_of env_ok ''missing.mp3'')) = None"
proof -
  have n: "''/work/missing.mp3'' \<notin> set (dir_chain ''/work/output/podcast'')"
    using dir_chain_prefix[of "''/work/missing.mp3''" "''/work/output/podcast''"] by auto
  have "makedirs env_ok (mixer_output_dir mixer0) world1 =
          (fst (makedirs env_ok (mixer_output_dir mixer0) world1),
           snd (makedirs env_ok (mixer_output_dir mixer0) world1))" by simp
  from makedirs_fs[OF this, of "''/work/missing.mp3''"] n show ?thesis
    by (auto simp: resolve_env_ok mixer0_def world1_def)
qed

text \<open>
  C3. When some file of the list is missing at the moment it is checked, that is, in the
  filesystem the directory call of line 150 left, resolved against the current
  directory, the mix returns the empty string. The only calls it made are that
  directory call and existence checks: nothing is decoded, nothing exported. No regular
  file is created or changed, and what stands at the output path
  \<^verbatim>\<open>podcast_final.mp3\<close> is what stood there before.
\<close>

theorem missing_file_aborts_mix:
  assumes "af \<in> set afs"
    and "makedirs en (mixer_output_dir m) w = (r, w1)"
    and "fsys w1 (resolve en (segment_path_of en af)) = None"
  shows "\<exists>k w'. PodcastMixer_run m en afs c w = (Inr [], w') \<and>
           trace w' = trace w @ EMakeDirs (mixer_output_dir m) #
                        map (\<lambda>p. EExists (segment_path_of en p)) (take k afs) \<and>
           fsys w' = fsys w1 \<and>
           (\<forall>q b. fsys w' q = Some (File b) \<longleftrightarrow> fsys w q = Some (File b)) \<and>
           fsys w' (resolve en (output_file_of m)) = fsys w (resolve en (output_file_of m))"
proof -
  define c' where "c' = (case c of None \<Rightarrow> 50 | Some x \<Rightarrow> x)"
  from assms(1) have ne: "afs \<noteq> []" by auto
  have run: "PodcastMixer_run m en afs c w = tryE (mixer_body m en afs c') (\<lambda>e. returnE []) w"
    using ne by (simp add: PodcastMixer_run_def c'_def)
  have files: "\<forall>q b. fsys w1 q = Some (File b) \<longleftrightarrow> fsys w q = Some (File b)"
    using makedirs_files[OF assms(2)] by blast
  note out = makedirs_output[OF assms(2)]
  note tr = makedirs_trace[OF assms(2)]
  show ?thesis
  proof (cases r)
    case (Inl e)
    with assms(2) have "PodcastMixer_run m en afs c w = (Inr [], w1)"
      by (simp add: run mixer_body_def bindE_def tryE_def returnE_def)
    moreover have "trace w1 = trace w @ EMakeDirs (mixer_output_dir m) #
                        map (\<lambda>p. EExists (segment_path_of en p)) (take 0 afs)"
      using tr by simp
    ultimately show ?thesis using files out by blast
  next
    case (Inr u)
    obtain v w2 where v: "validate en afs [] w1 = (v, w2)"
      by (cases "validate en afs [] w1")
    have miss: "\<not> (\<forall>af\<in>set afs. fsys w1 (resolve en (segment_path_of en af)) \<noteq> None)"
      using assms(1,3) by blast
    from validate_spec[OF v] have
      f: "fsys w2 = fsys w1"
      and t': "\<exists>k. trace w2 = trace w1 @ map (\<lambda>p. EExists (segment_path_of en p)) (take k afs)"
      and n': "v = Inr (if \<forall>af\<in>set afs. fsys w1 (resolve en (segment_path_of en af)) \<noteq> None
              then Some ([] @ map (segment_path_of en) afs) else None)"
      by blast+
    from n' miss have n: "v = Inr None" by (simp only: if_False)
    from t' obtain k where
      t: "trace w2 = trace w1 @ map (\<lambda>p. EExists (segment_path_of en p)) (take k afs)"
      by blast
    from Inr assms(2) v n have "PodcastMixer_run m en afs c w = (Inr [], w2)"
      by (simp add: run mixer_body_def bindE_def tryE_def returnE_def)
    moreover have "trace w2 = trace w @ EMakeDirs (mixer_output_dir m) #
                        map (\<lambda>p. EExists (segment_path_of en p)) (take k afs)"
      using tr t by simp
    ultimately show ?thesis using files out f by auto
  qed
qed

theorem missing_file_aborts_mix_witness:
  "''missing.mp3'' \<in> set [''000_A.mp3'', ''missing.mp3''] \<and>
   fsys (snd (makedirs env_ok (mixer_output_dir mixer0) world1))
     (resolve env_ok (segment_path_of env_ok ''missing.mp3'')) = None \<and>
   (\<exists>k w'. PodcastMixer_run mixer0 env_ok [''000_A.mp3'', ''missing.mp3''] None world1 = (Inr [], w') \<and>
           trace w' = trace world1 @ EMakeDirs (mixer_output_dir mixer0) #
                        map (\<lambda>p. EExists (segment_path_of env_ok p)) (take k [''000_A.mp3'', ''missing.mp3'']) \<and>
           fsys w' = fsys (snd (makedirs env_ok (mixer_output_dir mixer0) world1)) \<and>
           (\<forall>q b. fsys w' q = Some (File b) \<longleftrightarrow> fsys world1 q = Some (File b)) \<and>
           fsys w' (resolve env_ok (output_file_of mixer0)) = fsys world1 (resolve env_ok (output_file_of mixer0)))"
proof -
  have a: "''missing.mp3'' \<in> set [''000_A.mp3'', ''missing.mp3'']" by simp
  have b: "makedirs env_ok (mixer_output_dir mixer0) world1 =
          (fst (makedirs env_ok (mixer_output_dir mixer0) world1),
           snd (makedirs env_ok (mixer_output_dir mixer0) world1))" by simp
  from a missing_after_makedirs missing_file_aborts_mix[OF a b missing_after_makedirs, of None]
  show ?thesis by (intro conjI)
qed

subsection \<open>What the mixer leaves behind\<close>

lemma frame_refl: "frame out w w"
  by (simp add: frame_def)

lemma frame_trans: "frame out w w1 \<Longrightarrow> frame out w1 w2 \<Longrightarrow> frame out w w2"
  by (auto simp: frame_def)

lemma frame_emit: "frame out w (emit e w)"
  by (simp add: frame_def)

lemma codec_world: "codec en a w = (r, w') \<Longrightarrow> w' = w"
  by (auto simp: codec_def split: option.splits)

lemma from_file_world: "from_file en p w = (r, w') \<Longrightarrow> w' = emit (EFromFile p) w"
  by (auto simp: from_file_def Let_def split: option.splits node.splits dest: codec_world)

lemma silent_world: "silent en d w = (r, w') \<Longrightarrow> w' = emit (ESilent d) w"
  by (auto simp: silent_def dest: codec_world)

lemma plus_seg_world: "plus_seg en a b w = (r, w') \<Longrightarrow> w' = emit (EPlus a b) w"
  by (auto simp: plus_seg_def dest: codec_world)

lemma append_seg_world: "append_seg en a b c w = (r, w') \<Longrightarrow> w' = emit (EAppend a b c) w"
  by (auto simp: append_seg_def dest: codec_world)

lemma normalize_seg_world: "normalize_seg en a w = (r, w') \<Longrightarrow> w' = emit (ENormalize a) w"
  by (auto simp: normalize_seg_def dest: codec_world)

lemma gain_seg_world: "gain_seg en a n w = (r, w') \<Longrightarrow> w' = emit (EGain a n) w"
  by (auto simp: gain_seg_def dest: codec_world)

lemma export_frame:
  "export en a p fm br ps w = (r, w') \<Longrightarrow>
     trace w' = trace w @ [EExport a p fm br ps] \<and> (\<forall>q. q \<noteq> resolve en p \<longrightarrow> fsys w' q = fsys w q)"
  by (auto simp: export_def Let_def split: if_splits sum.splits fault.splits option.splits)

lemma mix_step_frame: "mix_step en c mixed p w = (r, w') \<Longrightarrow> frame out w w'"
  by (auto simp: mix_step_def bindE_def frame_def split: prod.splits sum.splits
           dest!: from_file_world silent_world plus_seg_world append_seg_world)

lemma mix_loop_frame: "mix_loop en c ps mixed w = (r, w') \<Longrightarrow> frame out w w'"
proof (induction ps arbitrary: mixed w)
  case Nil
  then show ?case by (simp add: frame_refl)
next
  case (Cons p ps)
  obtain r1 w1 where s: "mix_step en c mixed p w = (r1, w1)" by (cases "mix_step en c mixed p w")
  show ?case
  proof (cases r1)
    case (Inl e)
    with s Cons.prems mix_step_frame[OF s] show ?thesis by simp
  next
    case (Inr a)
    with s Cons.prems have "mix_loop en c ps a w1 = (r, w')" by simp
    from frame_trans[OF mix_step_frame[OF s] Cons.IH[OF this]] show ?thesis .
  qed
qed

lemma mix_files_frame:
  "mix_files m en c v w = (r, w') \<Longrightarrow> frame (resolve en (output_file_of m)) w w'"
proof (cases v)
  case Nil
  assume "mix_files m en c v w = (r, w')"
  with Nil show ?thesis by (simp add: mix_files_def raiseE_def frame_refl)
next
  case (Cons first rest)
  assume a: "mix_files m en c v w = (r, w')"
  let ?out = "resolve en (output_file_of m)"
  obtain r1 w1 where f: "from_file en first w = (r1, w1)" by (cases "from_file en first w")
  have f1: "frame ?out w w1" using from_file_world[OF f] by (simp add: frame_emit)
  show ?thesis
  proof (cases r1)
    case (Inl e)
    with a f Cons f1 show ?thesis by (simp add: mix_files_def bindE_def)
  next
    case (Inr a0)
    obtain r2 w2 where l: "mix_loop en c rest a0 w1 = (r2, w2)" by (cases "mix_loop en c rest a0 w1")
    have f2: "frame ?out w w2" using frame_trans[OF f1 mix_loop_frame[OF l]] .
    show ?thesis
    proof (cases r2)
      case (Inl e)
      with a f l Cons \<open>r1 = Inr a0\<close> f2 show ?thesis by (simp add: mix_files_def bindE_def)
    next
      case (Inr a1)
      obtain r3 w3 where x: "export en a1 (output_file_of m) ''mp3'' None export_params w2 = (r3, w3)"
        by (cases "export en a1 (output_file_of m) ''mp3'' None export_params w2")
      from export_frame[OF x] have "frame ?out w2 w3" by (simp add: frame_def)
      with f2 have f3: "frame ?out w w3" by (rule frame_trans)
      from a f l x Cons \<open>r1 = Inr a0\<close> Inr have "w' = w3"
        by (cases r3) (simp_all add: mix_files_def bindE_def returnE_def Let_def)
      with f3 show ?thesis by simp
    qed
  qed
qed

lemma mixer_body_frame:
  assumes "mixer_body m en afs c w = (r, w')" and "makedirs en (mixer_output_dir m) w = (r1, w1)"
  shows "frame (resolve en (output_file_of m)) w1 w'"
proof (cases r1)
  case (Inl e)
  with assms show ?thesis by (simp add: mixer_body_def bindE_def frame_refl)
next
  case (Inr u)
  obtain v w2 where v: "validate en afs [] w1 = (v, w2)" by (cases "validate en afs [] w1")
  from validate_spec[OF v] have f2: "frame (resolve en (output_file_of m)) w1 w2"
    by (auto simp: frame_def)
  from validate_spec[OF v] obtain x where vx: "v = Inr x" by blast
  show ?thesis
  proof (cases x)
    case None
    with assms Inr v vx f2 show ?thesis by (simp add: mixer_body_def bindE_def returnE_def)
  next
    case (Some files)
    with assms Inr v vx have "mix_files m en c files w2 = (r, w')"
      by (simp add: mixer_body_def bindE_def)
    from frame_trans[OF f2 mix_files_frame[OF this]] show ?thesis .
  qed
qed


lemma no_file_in_chain_world1:
  "\<not> list_ex (is_file (fsys world1)) (dir_chain ''/work/output/podcast'')"
proof
  assume "list_ex (is_file (fsys world1)) (dir_chain ''/work/output/podcast'')"
  then obtain x where x: "x \<in> set (dir_chain ''/work/output/podcast'')" and f: "is_file (fsys world1) x"
    by (auto simp: list_ex_iff)
  from f have "x = ''/work/000_A.mp3'' \<or> x = ''/work/002_A.mp3''"
    by (auto simp: is_file_def world1_def split: if_splits)
  with dir_chain_prefix[OF x] show False by auto
qed

lemma makedirs_env_ok:
  assumes "p \<noteq> []" and "\<not> list_ex (is_file (fsys w)) (dir_chain (resolve env_ok p))"
  shows "makedirs env_ok p w =
           (Inr (), (emit (EMakeDirs p) w)\<lparr>fsys := mk_dirs (dir_chain (resolve env_ok p)) (fsys w)\<rparr>)"
proof -
  from assms(1) have "resolve env_ok p \<in> set (dir_chain (resolve env_ok p))"
    by (intro dir_chain_self resolve_nonempty)
  with assms(2) have "\<not> is_file (fsys w) (resolve env_ok p)" by (auto simp: list_ex_iff)
  with assms show ?thesis
    by (simp add: makedirs_def Let_def env_ok_def)
qed

lemma makedirs_world1:
  "makedirs env_ok (mixer_output_dir mixer0) world1 =
     (Inr (), (emit (EMakeDirs ''output/podcast'') world1)
                \<lparr>fsys := mk_dirs (dir_chain ''/work/output/podcast'') (fsys world1)\<rparr>)"
  using makedirs_env_ok[of "''output/podcast''" world1] no_file_in_chain_world1
  by (simp add: resolve_env_ok mixer0_def)

text \<open>
  C10. With an empty list the call returns the empty string and the world is untouched:
  no call is made at all. With any other list the first call made is
  \<^verbatim>\<open>os.makedirs\<close> on the output directory, before any existence check, and
  whenever that call returned, the output directory is there when \<^verbatim>\<open>_run\<close>
  returns, whatever it returns, the empty string of a failed mix included.
\<close>

theorem mixer_makes_directory_first:
  "PodcastMixer_run m en [] c w = (Inr [], w) \<and>
   (afs \<noteq> [] \<longrightarrow>
      (\<exists>s w' evs. PodcastMixer_run m en afs c w = (Inr s, w') \<and>
         trace w' = trace w @ EMakeDirs (mixer_output_dir m) # evs \<and>
         (\<forall>w1. makedirs en (mixer_output_dir m) w = (Inr (), w1) \<longrightarrow>
               is_dir (fsys w') (resolve en (mixer_output_dir m)))))"
proof -
  have a: "PodcastMixer_run m en [] c w = (Inr [], w)"
    by (simp add: PodcastMixer_run_def returnE_def)
  have b: "\<exists>s w' evs. PodcastMixer_run m en afs c w = (Inr s, w') \<and>
         trace w' = trace w @ EMakeDirs (mixer_output_dir m) # evs \<and>
         (\<forall>w1. makedirs en (mixer_output_dir m) w = (Inr (), w1) \<longrightarrow>
               is_dir (fsys w') (resolve en (mixer_output_dir m)))" if ne: "afs \<noteq> []"
  proof -
    define c' where "c' = (case c of None \<Rightarrow> 50 | Some x \<Rightarrow> x)"
    obtain r w' where body: "mixer_body m en afs c' w = (r, w')"
      by (cases "mixer_body m en afs c' w")
    obtain r1 w1 where mk: "makedirs en (mixer_output_dir m) w = (r1, w1)"
      by (cases "makedirs en (mixer_output_dir m) w")
    from mixer_body_frame[OF body mk] obtain evs where
      t: "trace w' = trace w1 @ evs"
      and f: "\<forall>q. q \<noteq> resolve en (output_file_of m) \<longrightarrow> fsys w' q = fsys w1 q"
      by (auto simp: frame_def)
    from t makedirs_trace[OF mk] have t': "trace w' = trace w @ EMakeDirs (mixer_output_dir m) # evs"
      by simp
    have ne_out: "resolve en (mixer_output_dir m) \<noteq> resolve en (output_file_of m)"
      using output_longer[of en m] by auto
    have d: "is_dir (fsys w') (resolve en (mixer_output_dir m))"
      if "makedirs en (mixer_output_dir m) w = (Inr (), w0)" for w0
      using makedirs_dir[OF that] that mk f ne_out by (simp add: is_dir_def)
    have "\<exists>s. PodcastMixer_run m en afs c w = (Inr s, w')"
      using body ne by (cases r) (simp_all add: PodcastMixer_run_def tryE_def returnE_def c'_def)
    with t' d show ?thesis by blast
  qed
  from a b show ?thesis by blast
qed

theorem mixer_makes_directory_first_witness:
  "[''000_A.mp3'', ''missing.mp3''] \<noteq> [] \<and>
   PodcastMixer_run mixer0 env_ok [] None world1 = (Inr [], world1) \<and>
   (\<exists>w1. makedirs env_ok (mixer_output_dir mixer0) world1 = (Inr (), w1)) \<and>
   (\<exists>s w' evs. PodcastMixer_run mixer0 env_ok [''000_A.mp3'', ''missing.mp3''] None world1 = (Inr s, w') \<and>
       trace w' = trace world1 @ EMakeDirs (mixer_output_dir mixer0) # evs \<and>
       is_dir (fsys w') (resolve env_ok (mixer_output_dir mixer0)))"
  using mixer_makes_directory_first[of mixer0 env_ok None world1 "[''000_A.mp3'', ''missing.mp3'']"]
    makedirs_world1
  by auto

subsection \<open>A mix that succeeds\<close>

lemma bindE_Inr:
  "bindE m f w = (Inr y, w') \<Longrightarrow> \<exists>x w1. m w = (Inr x, w1) \<and> f x w1 = (Inr y, w')"
  by (auto simp: bindE_def split: prod.splits sum.splits)

lemma codec_Inr: "codec en a w = (Inr b, w') \<Longrightarrow> b = a \<and> w' = w"
  by (auto simp: codec_def split: option.splits)

lemma from_file_Inr:
  "from_file en p w = (Inr a, w') \<Longrightarrow>
     a = decoded en (fsys w) p \<and> w' = emit (EFromFile p) w \<and> is_file (fsys w) (resolve en p)"
  by (auto simp: from_file_def Let_def decoded_def content_of_def is_file_def
           split: option.splits node.splits dest: codec_Inr)

lemma silent_Inr: "silent en d w = (Inr a, w') \<Longrightarrow> a = Silent d \<and> w' = emit (ESilent d) w"
  by (auto simp: silent_def dest: codec_Inr)

lemma plus_seg_Inr:
  "plus_seg en a b w = (Inr x, w') \<Longrightarrow> x = Plus a b \<and> w' = emit (EPlus a b) w"
  by (auto simp: plus_seg_def dest: codec_Inr)

lemma append_seg_Inr:
  "append_seg en a b c w = (Inr x, w') \<Longrightarrow> x = Append a b c \<and> w' = emit (EAppend a b c) w"
  by (auto simp: append_seg_def dest: codec_Inr)

lemma normalize_seg_Inr:
  "normalize_seg en a w = (Inr x, w') \<Longrightarrow> x = Normalize a \<and> w' = emit (ENormalize a) w"
  by (auto simp: normalize_seg_def dest: codec_Inr)

lemma gain_seg_Inr:
  "gain_seg en a n w = (Inr x, w') \<Longrightarrow> x = Gain a n \<and> w' = emit (EGain a n) w"
  by (auto simp: gain_seg_def dest: codec_Inr)

lemma export_Inr:
  "export en a p fm br ps w = (Inr u, w') \<Longrightarrow>
     trace w' = trace w @ [EExport a p fm br ps] \<and>
     (\<exists>b. env_export en (emit (EExport a p fm br ps) w) a (resolve en p) fm br ps = Inr b \<and>
          fsys w' = (fsys w)(resolve en p \<mapsto> File b))"
  by (auto simp: export_def Let_def split: if_splits sum.splits fault.splits option.splits)

lemma mix_step_success:
  assumes "mix_step en c mixed p w = (Inr a, w')"
  shows "a = Append mixed (Plus (Silent 200) (decoded en (fsys w) p)) c \<and> fsys w' = fsys w \<and>
         trace w' = trace w @ [EFromFile p, ESilent 200, EPlus (Silent 200) (decoded en (fsys w) p),
                               EAppend mixed (Plus (Silent 200) (decoded en (fsys w) p)) c]"
proof -
  from assms[unfolded mix_step_def] obtain x1 w1 where
    a1: "from_file en p w = (Inr x1, w1)"
    and r1: "bindE (silent en 200) (\<lambda>silence. bindE (plus_seg en silence x1)
               (\<lambda>next_segment. append_seg en mixed next_segment c)) w1 = (Inr a, w')"
    by (blast dest: bindE_Inr)
  from r1 obtain x2 w2 where
    a2: "silent en 200 w1 = (Inr x2, w2)"
    and r2: "bindE (plus_seg en x2 x1) (\<lambda>next_segment. append_seg en mixed next_segment c) w2
               = (Inr a, w')"
    by (blast dest: bindE_Inr)
  from r2 obtain x3 w3 where
    a3: "plus_seg en x2 x1 w2 = (Inr x3, w3)"
    and a4: "append_seg en mixed x3 c w3 = (Inr a, w')"
    by (blast dest: bindE_Inr)
  from from_file_Inr[OF a1] silent_Inr[OF a2] plus_seg_Inr[OF a3] append_seg_Inr[OF a4]
  show ?thesis by simp
qed

lemma mix_loop_success:
  "mix_loop en c ps acc w = (Inr a, w') \<Longrightarrow>
     a = spec_mix en (fsys w) c acc ps \<and> fsys w' = fsys w \<and>
     trace w' = trace w @ spec_mix_calls en (fsys w) c acc ps"
proof (induction ps arbitrary: acc w)
  case Nil
  then show ?case by (simp add: spec_mix_def)
next
  case (Cons p ps)
  from Cons.prems obtain a1 w1 where
    s: "mix_step en c acc p w = (Inr a1, w1)" and l: "mix_loop en c ps a1 w1 = (Inr a, w')"
    by (auto split: prod.splits sum.splits)
  from mix_step_success[OF s] Cons.IH[OF l] show ?case
    by (simp add: spec_mix_def)
qed

lemma mix_files_success:
  assumes "mix_files m en c v w = (Inr s, w')"
  shows "\<exists>first rest b. v = first # rest \<and> s = output_file_of m \<and>
           trace w' = trace w @ [EFromFile first] @
             spec_mix_calls en (fsys w) c (decoded en (fsys w) first) rest @
             [EExport (spec_mix en (fsys w) c (decoded en (fsys w) first) rest)
                (output_file_of m) ''mp3'' None export_params] \<and>
           fsys w' = (fsys w)(resolve en (output_file_of m) \<mapsto> File b)"
proof (cases v)
  case Nil
  with assms show ?thesis by (simp add: mix_files_def raiseE_def)
next
  case (Cons first rest)
  let ?out = "output_file_of m"
  from assms Cons have h0:
    "bindE (from_file en first) (\<lambda>mixed. bindE (mix_loop en c rest mixed) (\<lambda>mixed.
       bindE (export en mixed ?out ''mp3'' None export_params) (\<lambda>_. returnE ?out))) w
     = (Inr s, w')"
    by (simp add: mix_files_def Let_def)
  from bindE_Inr[OF h0] obtain a0 w1 where
    a1: "from_file en first w = (Inr a0, w1)"
    and r1: "bindE (mix_loop en c rest a0) (\<lambda>mixed.
       bindE (export en mixed ?out ''mp3'' None export_params) (\<lambda>_. returnE ?out)) w1
     = (Inr s, w')"
    by blast
  from bindE_Inr[OF r1] obtain a w2 where
    a2: "mix_loop en c rest a0 w1 = (Inr a, w2)"
    and r2: "bindE (export en a ?out ''mp3'' None export_params) (\<lambda>_. returnE ?out) w2
               = (Inr s, w')"
    by blast
  from bindE_Inr[OF r2] obtain u w3 where
    a3: "export en a ?out ''mp3'' None export_params w2 = (Inr u, w3)"
    and a4: "returnE ?out w3 = (Inr s, w')"
    by blast
  from a4 have e: "s = ?out" "w' = w3" by (simp_all add: returnE_def)
  from from_file_Inr[OF a1] have f1: "a0 = decoded en (fsys w) first" "w1 = emit (EFromFile first) w"
    by simp_all
  from mix_loop_success[OF a2] f1 have f2: "a = spec_mix en (fsys w) c (decoded en (fsys w) first) rest"
    "fsys w2 = fsys w"
    "trace w2 = trace w @ [EFromFile first] @ spec_mix_calls en (fsys w) c (decoded en (fsys w) first) rest"
    by simp_all
  from export_Inr[OF a3] obtain b where
    f3: "trace w3 = trace w2 @ [EExport a ?out ''mp3'' None export_params]"
    "fsys w3 = (fsys w2)(resolve en ?out \<mapsto> File b)"
    by blast
  from f2 f3 e have "s = ?out \<and>
           trace w' = trace w @ [EFromFile first] @
             spec_mix_calls en (fsys w) c (decoded en (fsys w) first) rest @
             [EExport (spec_mix en (fsys w) c (decoded en (fsys w) first) rest)
                ?out ''mp3'' None export_params] \<and>
           fsys w' = (fsys w)(resolve en ?out \<mapsto> File b)"
    by simp
  with Cons show ?thesis by blast
qed

lemma validate_success:
  assumes "validate en afs acc w = (Inr (Some v), w')"
  shows "v = acc @ map (segment_path_of en) afs \<and> fsys w' = fsys w \<and>
         trace w' = trace w @ map (\<lambda>p. EExists (segment_path_of en p)) afs"
  using assms
proof (induction afs arbitrary: acc w)
  case Nil
  then show ?case by simp
next
  case (Cons af rest)
  from Cons.prems have v: "validate en rest (acc @ [segment_path_of en af])
        (emit (EExists (segment_path_of en af)) w) = (Inr (Some v), w')"
    by (auto simp: path_exists_def Let_def split: if_splits)
  from Cons.IH[OF v] show ?case by simp
qed

lemma mixer_body_success:
  assumes "mixer_body m en afs c w = (Inr s, w')" and "s \<noteq> []"
  shows "\<exists>first rest w1 b. map (segment_path_of en) afs = first # rest \<and>
           makedirs en (mixer_output_dir m) w = (Inr (), w1) \<and>
           s = output_file_of m \<and>
           trace w' = trace w @ [EMakeDirs (mixer_output_dir m)] @
             map EExists (first # rest) @ [EFromFile first] @
             spec_mix_calls en (fsys w1) c (decoded en (fsys w1) first) rest @
             [EExport (spec_mix en (fsys w1) c (decoded en (fsys w1) first) rest)
                (output_file_of m) ''mp3'' None export_params] \<and>
           fsys w' = (fsys w1)(resolve en (output_file_of m) \<mapsto> File b)"
proof -
  from bindE_Inr[OF assms(1)[unfolded mixer_body_def]] obtain u w1 where
    a1: "makedirs en (mixer_output_dir m) w = (Inr u, w1)"
    and r1: "bindE (validate en afs []) (\<lambda>v. case v of None \<Rightarrow> returnE []
               | Some files \<Rightarrow> mix_files m en c files) w1 = (Inr s, w')"
    by blast
  from bindE_Inr[OF r1] obtain v w2 where
    a2: "validate en afs [] w1 = (Inr v, w2)"
    and r2: "(case v of None \<Rightarrow> returnE [] | Some files \<Rightarrow> mix_files m en c files) w2 = (Inr s, w')"
    by blast
  from r2 assms(2) obtain files where
    v: "v = Some files" and a3: "mix_files m en c files w2 = (Inr s, w')"
    by (cases v) (auto simp: returnE_def)
  from validate_success[OF a2[unfolded v]] have
    f2: "files = map (segment_path_of en) afs" "fsys w2 = fsys w1"
    "trace w2 = trace w1 @ map (\<lambda>p. EExists (segment_path_of en p)) afs"
    by simp_all
  from mix_files_success[OF a3] obtain first rest b where
    f3: "files = first # rest" "s = output_file_of m"
    "trace w' = trace w2 @ [EFromFile first] @
             spec_mix_calls en (fsys w2) c (decoded en (fsys w2) first) rest @
             [EExport (spec_mix en (fsys w2) c (decoded en (fsys w2) first) rest)
                (output_file_of m) ''mp3'' None export_params]"
    "fsys w' = (fsys w2)(resolve en (output_file_of m) \<mapsto> File b)"
    by blast
  have "map (\<lambda>p. EExists (segment_path_of en p)) afs = map EExists (map (segment_path_of en) afs)"
    by (simp add: comp_def)
  with f2(1) f3(1) have
    m: "map (\<lambda>p. EExists (segment_path_of en p)) afs = map EExists (first # rest)"
    by simp
  from makedirs_trace[OF a1] have t1: "trace w1 = trace w @ [EMakeDirs (mixer_output_dir m)]" .
  have "map (segment_path_of en) afs = first # rest \<and>
           makedirs en (mixer_output_dir m) w = (Inr (), w1) \<and>
           s = output_file_of m \<and>
           trace w' = trace w @ [EMakeDirs (mixer_output_dir m)] @
             map EExists (first # rest) @ [EFromFile first] @
             spec_mix_calls en (fsys w1) c (decoded en (fsys w1) first) rest @
             [EExport (spec_mix en (fsys w1) c (decoded en (fsys w1) first) rest)
                (output_file_of m) ''mp3'' None export_params] \<and>
           fsys w' = (fsys w1)(resolve en (output_file_of m) \<mapsto> File b)"
    using a1 f2 f3 m t1 by simp
  then show ?thesis by - (intro exI, assumption)
qed

lemma run_success_body:
  assumes "PodcastMixer_run m en afs c w = (Inr s, w')" and "s \<noteq> []"
  shows "mixer_body m en afs (case c of None \<Rightarrow> 50 | Some x \<Rightarrow> x) w = (Inr s, w')"
proof -
  define c' where "c' = (case c of None \<Rightarrow> 50 | Some x \<Rightarrow> x)"
  obtain r w1 where b: "mixer_body m en afs c' w = (r, w1)" by (cases "mixer_body m en afs c' w")
  from assms have ne: "afs \<noteq> []" by (auto simp: PodcastMixer_run_def returnE_def)
  from assms ne b show ?thesis
    by (cases r) (auto simp: PodcastMixer_run_def tryE_def returnE_def c'_def)
qed

lemma is_file_exists: "is_file f q \<Longrightarrow> f q \<noteq> None"
  by (cases "f q") (simp_all add: is_file_def)

lemma from_file_env_ok:
  "is_file (fsys w) (resolve env_ok p) \<Longrightarrow>
     from_file env_ok p w = (Inr (decoded env_ok (fsys w) p), emit (EFromFile p) w)"
  by (auto simp: from_file_def Let_def codec_def decoded_def content_of_def is_file_def env_ok_def
           split: option.splits node.splits)

lemma mix_step_env_ok:
  "is_file (fsys w) (resolve env_ok p) \<Longrightarrow>
     \<exists>a w'. mix_step env_ok c mixed p w = (Inr a, w') \<and> fsys w' = fsys w"
proof -
  assume "is_file (fsys w) (resolve env_ok p)"
  note f = from_file_env_ok[OF this]
  have c: "codec env_ok a v = (Inr a, v)" for a v
    by (simp add: codec_def env_ok_def)
  show ?thesis
    by (simp add: mix_step_def bindE_def f silent_def plus_seg_def append_seg_def c)
qed

lemma mix_loop_env_ok:
  "\<forall>p\<in>set ps. is_file (fsys w) (resolve env_ok p) \<Longrightarrow>
     \<exists>a w'. mix_loop env_ok c ps acc w = (Inr a, w') \<and> fsys w' = fsys w"
proof (induction ps arbitrary: acc w)
  case Nil
  then show ?case by simp
next
  case (Cons p ps)
  from Cons.prems have "is_file (fsys w) (resolve env_ok p)" by simp
  from mix_step_env_ok[OF this, of c acc] obtain a w1 where
    s: "mix_step env_ok c acc p w = (Inr a, w1)" and f: "fsys w1 = fsys w" by blast
  from Cons.prems f have "\<forall>p\<in>set ps. is_file (fsys w1) (resolve env_ok p)" by simp
  from Cons.IH[OF this, of a] obtain a' w' where
    "mix_loop env_ok c ps a w1 = (Inr a', w')" "fsys w' = fsys w1" by blast
  with s f show ?case by simp
qed

lemma export_env_ok:
  "\<not> is_dir (fsys w) (resolve env_ok p) \<Longrightarrow> \<exists>w'. export env_ok a p fm br ps w = (Inr (), w')"
  by (simp add: export_def Let_def env_ok_def)

lemma mixer_env_ok_succeeds:
  assumes "afs \<noteq> []" and "mixer_output_dir m \<noteq> []"
    and "\<not> list_ex (is_file (fsys w)) (dir_chain (resolve env_ok (mixer_output_dir m)))"
    and "\<forall>af\<in>set afs. is_file (fsys w) (resolve env_ok (segment_path_of env_ok af))"
    and "\<not> is_dir (fsys w) (resolve env_ok (output_file_of m))"
  shows "\<exists>w'. PodcastMixer_run m env_ok afs c w = (Inr (output_file_of m), w')"
proof -
  define c' where "c' = (case c of None \<Rightarrow> 50 | Some x \<Rightarrow> x)"
  let ?out = "output_file_of m"
  obtain w1 where mk: "makedirs env_ok (mixer_output_dir m) w = (Inr (), w1)"
    using makedirs_env_ok[OF assms(2,3)] by blast
  have files: "is_file (fsys w1) q \<longleftrightarrow> is_file (fsys w) q" for q
    using makedirs_fs[OF mk, of q] by (auto simp: is_file_def)
  have nd: "\<not> is_dir (fsys w1) (resolve env_ok ?out)"
    using makedirs_output[OF mk] assms(5) by (simp add: is_dir_def)
  obtain v w2 where v: "validate env_ok afs [] w1 = (v, w2)"
    by (cases "validate env_ok afs [] w1")
  have ex: "\<forall>af\<in>set afs. fsys w1 (resolve env_ok (segment_path_of env_ok af)) \<noteq> None"
  proof
    fix af assume "af \<in> set afs"
    with assms(4) files have "is_file (fsys w1) (resolve env_ok (segment_path_of env_ok af))"
      by blast
    then show "fsys w1 (resolve env_ok (segment_path_of env_ok af)) \<noteq> None"
      by (rule is_file_exists)
  qed
  from validate_spec[OF v] ex have f2: "fsys w2 = fsys w1"
    and vv: "v = Inr (Some (map (segment_path_of env_ok) afs))"
    by simp_all
  from assms(1) obtain af rest where afs: "afs = af # rest" by (cases afs) auto
  let ?first = "segment_path_of env_ok af"
  let ?rest = "map (segment_path_of env_ok) rest"
  have all2: "\<forall>p\<in>set (?first # ?rest). is_file (fsys w2) (resolve env_ok p)"
    using assms(4) files f2 afs by auto
  then have "is_file (fsys w2) (resolve env_ok ?first)" by simp
  note ff = from_file_env_ok[OF this]
  from all2 have "\<forall>p\<in>set ?rest. is_file (fsys (emit (EFromFile ?first) w2)) (resolve env_ok p)"
    by simp
  from mix_loop_env_ok[OF this, of c' "decoded env_ok (fsys w2) ?first"] obtain a w3 where
    l: "mix_loop env_ok c' ?rest (decoded env_ok (fsys w2) ?first) (emit (EFromFile ?first) w2)
          = (Inr a, w3)" and f3: "fsys w3 = fsys w2"
    by auto
  from nd f2 f3 have "\<not> is_dir (fsys w3) (resolve env_ok ?out)" by simp
  from export_env_ok[OF this, of a "''mp3''" None export_params] obtain w4 where
    x: "export env_ok a ?out ''mp3'' None export_params w3 = (Inr (), w4)" by blast
  have "mix_files m env_ok c' (?first # ?rest) w2 = (Inr ?out, w4)"
    using ff l x by (simp add: mix_files_def bindE_def returnE_def Let_def)
  with mk v vv afs have "mixer_body m env_ok afs c' w = (Inr ?out, w4)"
    by (simp add: mixer_body_def bindE_def)
  with assms(1) show ?thesis
    by (auto simp: PodcastMixer_run_def tryE_def c'_def)
qed

lemma mixer0_world1_succeeds:
  "\<exists>w'. PodcastMixer_run mixer0 env_ok [''000_A.mp3'', ''002_A.mp3''] c world1
          = (Inr ''output/podcast/podcast_final.mp3'', w')"
proof -
  have o: "output_file_of mixer0 = ''output/podcast/podcast_final.mp3''"
    by (simp add: output_file_of_def mixer0_def join_def isabs_def)
  have r: "resolve env_ok ''output/podcast/podcast_final.mp3'' = ''/work/output/podcast/podcast_final.mp3''"
    by (simp add: resolve_def isabs_def join_def env_ok_def)
  have "\<exists>w'. PodcastMixer_run mixer0 env_ok [''000_A.mp3'', ''002_A.mp3''] c world1
          = (Inr (output_file_of mixer0), w')"
  proof (rule mixer_env_ok_succeeds)
    show "[''000_A.mp3'', ''002_A.mp3''] \<noteq> []" by simp
    show "mixer_output_dir mixer0 \<noteq> []" by (simp add: mixer0_def)
    show "\<not> list_ex (is_file (fsys world1)) (dir_chain (resolve env_ok (mixer_output_dir mixer0)))"
      using no_file_in_chain_world1 by (simp add: mixer0_def resolve_env_ok)
    show "\<forall>af\<in>set [''000_A.mp3'', ''002_A.mp3''].
            is_file (fsys world1) (resolve env_ok (segment_path_of env_ok af))"
      by (simp add: resolve_env_ok is_file_def world1_def)
    show "\<not> is_dir (fsys world1) (resolve env_ok (output_file_of mixer0))"
      by (simp add: o r is_dir_def world1_def)
  qed
  then show ?thesis by (simp add: o)
qed

text \<open>
  C2. A mix that succeeds made exactly these calls, in this order: the directory call,
  one existence check per file, the decoding of the first file, and then for each later
  file, in input order, its decoding, a silence of 200 ms, the silence put in front of
  it, and the result appended to the running mix with the crossfade (50 when the caller
  gives none); at the end, one export of the running mix. The first file gets no
  silence: the running mix starts as the first file decoded.
\<close>

theorem mixer_follows_algorithm:
  assumes "PodcastMixer_run m en afs crossfade_arg w = (Inr s, w')" and "s \<noteq> []"
  shows "\<exists>first rest w1.
           map (segment_path_of en) afs = first # rest \<and>
           makedirs en (mixer_output_dir m) w = (Inr (), w1) \<and>
           trace w' = trace w @ [EMakeDirs (mixer_output_dir m)] @
             map EExists (first # rest) @ [EFromFile first] @
             spec_mix_calls en (fsys w1) (case crossfade_arg of None \<Rightarrow> 50 | Some c \<Rightarrow> c)
               (decoded en (fsys w1) first) rest @
             [EExport (spec_mix en (fsys w1) (case crossfade_arg of None \<Rightarrow> 50 | Some c \<Rightarrow> c)
                         (decoded en (fsys w1) first) rest)
                (output_file_of m) ''mp3'' None export_params]"
  using mixer_body_success[OF run_success_body[OF assms] assms(2)]
  by (elim exE conjE) (intro exI conjI; assumption)

lemma inputs_not_in_chain:
  "''/work/000_A.mp3'' \<notin> set (dir_chain ''/work/output/podcast'')"
  "''/work/002_A.mp3'' \<notin> set (dir_chain ''/work/output/podcast'')"
  using dir_chain_prefix[of "''/work/000_A.mp3''" "''/work/output/podcast''"]
    dir_chain_prefix[of "''/work/002_A.mp3''" "''/work/output/podcast''"]
  by auto

theorem mixer_follows_algorithm_witness:
  "\<exists>w'. PodcastMixer_run mixer0 env_ok [''000_A.mp3'', ''002_A.mp3''] None world1
          = (Inr ''output/podcast/podcast_final.mp3'', w') \<and>
        ''output/podcast/podcast_final.mp3'' \<noteq> [] \<and>
        trace w' =
          [EMakeDirs ''output/podcast'', EExists ''/work/000_A.mp3'', EExists ''/work/002_A.mp3'',
           EFromFile ''/work/000_A.mp3'',
           EFromFile ''/work/002_A.mp3'', ESilent 200,
           EPlus (Silent 200) (FromFile ''/work/002_A.mp3'' [4, 5]),
           EAppend (FromFile ''/work/000_A.mp3'' [1, 2, 3])
             (Plus (Silent 200) (FromFile ''/work/002_A.mp3'' [4, 5])) 50,
           EExport (Append (FromFile ''/work/000_A.mp3'' [1, 2, 3])
                      (Plus (Silent 200) (FromFile ''/work/002_A.mp3'' [4, 5])) 50)
             ''output/podcast/podcast_final.mp3'' ''mp3'' None [''-q:a'', ''0'', ''-ar'', ''48000'']]"
proof -
  from mixer0_world1_succeeds[of None] obtain w' where
    r: "PodcastMixer_run mixer0 env_ok [''000_A.mp3'', ''002_A.mp3''] None world1
          = (Inr ''output/podcast/podcast_final.mp3'', w')" by blast
  have n: "''output/podcast/podcast_final.mp3'' \<noteq> []" by simp
  from mixer_follows_algorithm[OF r n] obtain first rest w1 where
    a: "map (segment_path_of env_ok) [''000_A.mp3'', ''002_A.mp3''] = first # rest"
    and b: "makedirs env_ok (mixer_output_dir mixer0) world1 = (Inr (), w1)"
    and c: "trace w' = trace world1 @ [EMakeDirs (mixer_output_dir mixer0)] @
             map EExists (first # rest) @ [EFromFile first] @
             spec_mix_calls env_ok (fsys w1) (case None of None \<Rightarrow> 50 | Some c \<Rightarrow> c)
               (decoded env_ok (fsys w1) first) rest @
             [EExport (spec_mix env_ok (fsys w1) (case None of None \<Rightarrow> 50 | Some c \<Rightarrow> c)
                         (decoded env_ok (fsys w1) first) rest)
                (output_file_of mixer0) ''mp3'' None export_params]"
    by (elim exE conjE)
  have o: "output_file_of mixer0 = ''output/podcast/podcast_final.mp3''"
    by (simp add: output_file_of_def mixer0_def join_def isabs_def)
  from a have f: "first = ''/work/000_A.mp3''" "rest = [''/work/002_A.mp3'']"
    by (simp_all add: segment_path_of_def isabs_def join_def env_ok_def)
  from b makedirs_world1 have w1: "fsys w1 = mk_dirs (dir_chain ''/work/output/podcast'') (fsys world1)"
    by auto
  have d: "decoded env_ok (fsys w1) ''/work/000_A.mp3'' = FromFile ''/work/000_A.mp3'' [1, 2, 3]"
    "decoded env_ok (fsys w1) ''/work/002_A.mp3'' = FromFile ''/work/002_A.mp3'' [4, 5]"
    by (simp_all add: decoded_def content_of_def resolve_def isabs_def w1 mk_dirs_def
          inputs_not_in_chain world1_def)
  from c[unfolded o] have "trace w' =
          [EMakeDirs ''output/podcast'', EExists ''/work/000_A.mp3'', EExists ''/work/002_A.mp3'',
           EFromFile ''/work/000_A.mp3'',
           EFromFile ''/work/002_A.mp3'', ESilent 200,
           EPlus (Silent 200) (FromFile ''/work/002_A.mp3'' [4, 5]),
           EAppend (FromFile ''/work/000_A.mp3'' [1, 2, 3])
             (Plus (Silent 200) (FromFile ''/work/002_A.mp3'' [4, 5])) 50,
           EExport (Append (FromFile ''/work/000_A.mp3'' [1, 2, 3])
                      (Plus (Silent 200) (FromFile ''/work/002_A.mp3'' [4, 5])) 50)
             ''output/podcast/podcast_final.mp3'' ''mp3'' None [''-q:a'', ''0'', ''-ar'', ''48000'']]"
    by (simp add: f d spec_mix_def export_params_def world1_def mixer0_def)
  with r n show ?thesis by (intro exI[of _ w'] conjI)
qed


subsection \<open>What the mixer returns\<close>

lemma run_cases:
  "PodcastMixer_run m en afs c w = (r, w') \<Longrightarrow>
     \<exists>s. r = Inr s \<and> (s = [] \<or> s = output_file_of m)"
proof (cases "afs = []")
  case True
  assume "PodcastMixer_run m en afs c w = (r, w')"
  with True show ?thesis by (auto simp add: PodcastMixer_run_def returnE_def)
next
  case False
  assume a: "PodcastMixer_run m en afs c w = (r, w')"
  define c' where "c' = (case c of None \<Rightarrow> 50 | Some x \<Rightarrow> x)"
  obtain r1 w1 where b: "mixer_body m en afs c' w = (r1, w1)"
    by (cases "mixer_body m en afs c' w")
  show ?thesis
  proof (cases r1)
    case (Inl e)
    with a b False show ?thesis
      by (auto simp add: PodcastMixer_run_def tryE_def returnE_def c'_def)
  next
    case (Inr s)
    with a b mixer_body_result[of m en afs c' w s w1] False show ?thesis
      by (auto simp add: PodcastMixer_run_def tryE_def c'_def)
  qed
qed

lemma run_body_raises:
  "mixer_body m en afs (case c of None \<Rightarrow> 50 | Some x \<Rightarrow> x) w = (Inl e, w1) \<Longrightarrow>
     PodcastMixer_run m en afs c w = (r, w') \<Longrightarrow> r = Inr []"
  by (cases "afs = []") (auto simp: PodcastMixer_run_def tryE_def returnE_def)

lemma no_export_in_calls: "filter is_export (spec_mix_calls en f c acc ps) = []"
  by (induction ps arbitrary: acc) (simp_all add: is_export_def)

lemma no_export_in_checks: "filter is_export (map EExists ps) = []"
  by (induction ps) (simp_all add: is_export_def)

lemma isabs_output: "mixer_output_dir m \<noteq> [] \<Longrightarrow> isabs (output_file_of m) = isabs (mixer_output_dir m)"
  by (cases "mixer_output_dir m") (auto simp: output_file_of_def join_def isabs_def)

lemma makedirs_nonempty: "makedirs en p w = (Inr u, w1) \<Longrightarrow> p \<noteq> []"
  by (auto simp: makedirs_def Let_def split: if_splits)

lemma mixer_success_isabs:
  assumes run: "PodcastMixer_run m en afs c w = (Inr s, w')" and ne: "s \<noteq> []"
  shows "isabs s \<longleftrightarrow> isabs (mixer_output_dir m)"
proof -
  define c' where "c' = (case c of None \<Rightarrow> 50 | Some x \<Rightarrow> x)"
  from mixer_body_success[OF run_success_body[OF run ne] ne] obtain first rest w1 b' where
    mk: "makedirs en (mixer_output_dir m) w = (Inr (), w1)"
    and so: "s = output_file_of m"
    and tr: "trace w' = trace w @ [EMakeDirs (mixer_output_dir m)] @
             map EExists (first # rest) @ [EFromFile first] @
             spec_mix_calls en (fsys w1) c' (decoded en (fsys w1) first) rest @
             [EExport (spec_mix en (fsys w1) c' (decoded en (fsys w1) first) rest)
                (output_file_of m) ''mp3'' None export_params]"
    and fs: "fsys w' = (fsys w1)(resolve en (output_file_of m) \<mapsto> File b')"
    unfolding c'_def by (elim exE conjE)
  show "isabs s \<longleftrightarrow> isabs (mixer_output_dir m)"
    using isabs_output[OF makedirs_nonempty[OF mk]] so by simp
qed
lemma mixer_success_export:
  assumes run: "PodcastMixer_run m en afs c w = (Inr s, w')" and ne: "s \<noteq> []"
  shows "\<exists>a. filter is_export (drop (length (trace w)) (trace w'))
                      = [EExport a s ''mp3'' None [''-q:a'', ''0'', ''-ar'', ''48000'']]"
proof -
  define c' where "c' = (case c of None \<Rightarrow> 50 | Some x \<Rightarrow> x)"
  from mixer_body_success[OF run_success_body[OF run ne] ne] obtain first rest w1 b' where
    mk: "makedirs en (mixer_output_dir m) w = (Inr (), w1)"
    and so: "s = output_file_of m"
    and tr: "trace w' = trace w @ [EMakeDirs (mixer_output_dir m)] @
             map EExists (first # rest) @ [EFromFile first] @
             spec_mix_calls en (fsys w1) c' (decoded en (fsys w1) first) rest @
             [EExport (spec_mix en (fsys w1) c' (decoded en (fsys w1) first) rest)
                (output_file_of m) ''mp3'' None export_params]"
    and fs: "fsys w' = (fsys w1)(resolve en (output_file_of m) \<mapsto> File b')"
    unfolding c'_def by (elim exE conjE)
  define pre where "pre = [EMakeDirs (mixer_output_dir m)] @
             map EExists (first # rest) @ [EFromFile first] @
             spec_mix_calls en (fsys w1) c' (decoded en (fsys w1) first) rest"
  define a where "a = spec_mix en (fsys w1) c' (decoded en (fsys w1) first) rest"
  have p: "filter is_export pre = []"
    unfolding pre_def filter_append no_export_in_calls no_export_in_checks
    by (simp add: is_export_def)
  from tr have t: "trace w' = trace w @ (pre @ [EExport a s ''mp3'' None export_params])"
    by (simp add: pre_def a_def so)
  have dd: "drop (length (trace w)) (trace w') = pre @ [EExport a s ''mp3'' None export_params]"
    unfolding t by simp
  have e: "is_export (EExport a s ''mp3'' None export_params)"
    by (simp add: is_export_def)
  have "filter is_export (pre @ [EExport a s ''mp3'' None export_params])
               = [EExport a s ''mp3'' None export_params]"
    unfolding filter_append p using e by simp
  then have "filter is_export (drop (length (trace w)) (trace w'))
               = [EExport a s ''mp3'' None [''-q:a'', ''0'', ''-ar'', ''48000'']]"
    unfolding dd export_params_def .
  then show ?thesis by - (rule exI, assumption)
qed
lemma mixer_success_file:
  assumes run: "PodcastMixer_run m en afs c w = (Inr s, w')" and ne: "s \<noteq> []"
  shows "\<exists>b. fsys w' (resolve en s) = Some (File b)"
proof -
  define c' where "c' = (case c of None \<Rightarrow> 50 | Some x \<Rightarrow> x)"
  from mixer_body_success[OF run_success_body[OF run ne] ne] obtain first rest w1 b' where
    mk: "makedirs en (mixer_output_dir m) w = (Inr (), w1)"
    and so: "s = output_file_of m"
    and tr: "trace w' = trace w @ [EMakeDirs (mixer_output_dir m)] @
             map EExists (first # rest) @ [EFromFile first] @
             spec_mix_calls en (fsys w1) c' (decoded en (fsys w1) first) rest @
             [EExport (spec_mix en (fsys w1) c' (decoded en (fsys w1) first) rest)
                (output_file_of m) ''mp3'' None export_params]"
    and fs: "fsys w' = (fsys w1)(resolve en (output_file_of m) \<mapsto> File b')"
    unfolding c'_def by (elim exE conjE)
  show ?thesis
    unfolding fs so by simp
qed
lemma mixer_success_others:
  assumes run: "PodcastMixer_run m en afs c w = (Inr s, w')" and ne: "s \<noteq> []"
  shows "q \<noteq> resolve en s \<Longrightarrow> (fsys w' q = Some (File b) \<longleftrightarrow> fsys w q = Some (File b))"
proof -
  define c' where "c' = (case c of None \<Rightarrow> 50 | Some x \<Rightarrow> x)"
  from mixer_body_success[OF run_success_body[OF run ne] ne] obtain first rest w1 b' where
    mk: "makedirs en (mixer_output_dir m) w = (Inr (), w1)"
    and so: "s = output_file_of m"
    and tr: "trace w' = trace w @ [EMakeDirs (mixer_output_dir m)] @
             map EExists (first # rest) @ [EFromFile first] @
             spec_mix_calls en (fsys w1) c' (decoded en (fsys w1) first) rest @
             [EExport (spec_mix en (fsys w1) c' (decoded en (fsys w1) first) rest)
                (output_file_of m) ''mp3'' None export_params]"
    and fs: "fsys w' = (fsys w1)(resolve en (output_file_of m) \<mapsto> File b')"
    unfolding c'_def by (elim exE conjE)
  show "fsys w' q = Some (File b) \<longleftrightarrow> fsys w q = Some (File b)" if "q \<noteq> resolve en s"
  proof -
    from that have "fsys w' q = fsys w1 q" unfolding fs so by simp
    with makedirs_files[OF mk, of q b] show ?thesis by simp
  qed
qed

text \<open>
  C5, as the code has it. \<^verbatim>\<open>PodcastMixer._run\<close> returns the empty string or the
  path \<^verbatim>\<open>os.path.join(output_dir, "podcast_final.mp3")\<close>, and the empty string
  whenever a call inside the \<^verbatim>\<open>try\<close> raises. The path is returned as it is
  joined: it is absolute exactly when \<^verbatim>\<open>output_dir\<close> is, and the default
  \<^verbatim>\<open>output/podcast\<close> is not. When the path is returned, one export was made, to
  that path, as \<^verbatim>\<open>mp3\<close> with \<^verbatim>\<open>-q:a 0 -ar 48000\<close>; the file at that path
  now holds what the export wrote, whatever it held before, and every other regular
  file is as it was.
\<close>

theorem mixer_result:
  assumes "PodcastMixer_run m en afs c w = (r, w')"
  shows "(\<exists>s. r = Inr s \<and> (s = [] \<or> s = join (mixer_output_dir m) ''podcast_final.mp3'')) \<and>
         (\<forall>e w1. mixer_body m en afs (case c of None \<Rightarrow> 50 | Some x \<Rightarrow> x) w = (Inl e, w1)
                  \<longrightarrow> r = Inr []) \<and>
         (\<forall>s. r = Inr s \<and> s \<noteq> [] \<longrightarrow>
               (isabs s \<longleftrightarrow> isabs (mixer_output_dir m)) \<and>
               (\<exists>a. filter is_export (drop (length (trace w)) (trace w'))
                      = [EExport a s ''mp3'' None [''-q:a'', ''0'', ''-ar'', ''48000'']]) \<and>
               (\<exists>b. fsys w' (resolve en s) = Some (File b)) \<and>
               (\<forall>q b. q \<noteq> resolve en s \<longrightarrow>
                      (fsys w' q = Some (File b) \<longleftrightarrow> fsys w q = Some (File b))))"
proof (intro conjI allI impI)
  show "\<exists>s. r = Inr s \<and> (s = [] \<or> s = join (mixer_output_dir m) ''podcast_final.mp3'')"
    using run_cases[OF assms] by (simp add: output_file_of_def)
next
  fix e w1
  assume "mixer_body m en afs (case c of None \<Rightarrow> 50 | Some x \<Rightarrow> x) w = (Inl e, w1)"
  from run_body_raises[OF this assms] show "r = Inr []" .
next
  fix s assume "r = Inr s \<and> s \<noteq> []"
  with assms have run: "PodcastMixer_run m en afs c w = (Inr s, w')" and ne: "s \<noteq> []"
    by simp_all
  show "isabs s \<longleftrightarrow> isabs (mixer_output_dir m)"
    by (rule mixer_success_isabs[OF run ne])
  show "\<exists>a. filter is_export (drop (length (trace w)) (trace w'))
                      = [EExport a s ''mp3'' None [''-q:a'', ''0'', ''-ar'', ''48000'']]"
    by (rule mixer_success_export[OF run ne])
  show "\<exists>b. fsys w' (resolve en s) = Some (File b)"
    by (rule mixer_success_file[OF run ne])
  fix q b assume "q \<noteq> resolve en s"
  then show "fsys w' q = Some (File b) \<longleftrightarrow> fsys w q = Some (File b)"
    by (rule mixer_success_others[OF run ne])
qed

theorem mixer_result_witness:
  "\<exists>w'. PodcastMixer_run mixer0 env_ok [''000_A.mp3'', ''002_A.mp3''] None world1
          = (Inr ''output/podcast/podcast_final.mp3'', w') \<and>
        (isabs ''output/podcast/podcast_final.mp3'' \<longleftrightarrow> isabs (mixer_output_dir mixer0)) \<and>
        (\<exists>a. filter is_export (drop (length (trace world1)) (trace w'))
               = [EExport a ''output/podcast/podcast_final.mp3'' ''mp3'' None
                    [''-q:a'', ''0'', ''-ar'', ''48000'']]) \<and>
        (\<exists>b. fsys w' (resolve env_ok ''output/podcast/podcast_final.mp3'') = Some (File b))"
proof -
  from mixer0_world1_succeeds[of None] obtain w' where
    r: "PodcastMixer_run mixer0 env_ok [''000_A.mp3'', ''002_A.mp3''] None world1
          = (Inr ''output/podcast/podcast_final.mp3'', w')" by (elim exE)
  have k: "Inr ''output/podcast/podcast_final.mp3'' = Inr ''output/podcast/podcast_final.mp3'' \<and>
           ''output/podcast/podcast_final.mp3'' \<noteq> []" by simp
  note m = mixer_result[OF r, THEN conjunct2, THEN conjunct2, THEN spec, THEN mp, OF k]
  note 1 = m[THEN conjunct1]
  note 2 = m[THEN conjunct2, THEN conjunct1]
  note 3 = m[THEN conjunct2, THEN conjunct2, THEN conjunct1]
  from r 1 2 3 show ?thesis by - (rule exI[of _ w'], intro conjI; assumption)
qed


text \<open>
  The claim as stated fails on the default configuration: the mix of two existing files
  succeeds and returns a relative path.
\<close>

theorem mixer_returns_relative_path:
  "fst (PodcastMixer_run mixer0 env_ok [''000_A.mp3'', ''002_A.mp3''] (Some 50) world1)
     = Inr ''output/podcast/podcast_final.mp3'' \<and>
   \<not> isabs ''output/podcast/podcast_final.mp3'' \<and>
   mixer_output_dir mixer0 = ''output/podcast''"
  using mixer0_world1_succeeds[of "Some 50"]
  by (auto simp: isabs_def mixer0_def)

subsection \<open>The normalisation pass\<close>

lemma write_file_trace:
  "write_file en p b w = (r, w') \<Longrightarrow> trace w' = trace w @ [EWrite p b]"
  by (auto simp: write_file_def Let_def split: if_splits option.splits fault.splits)

lemma write_file_Inr:
  "write_file en p b w = (Inr u, w') \<Longrightarrow> fsys w' (resolve en p) = Some (File b)"
  by (auto simp: write_file_def Let_def split: if_splits option.splits fault.splits)

lemma convert_world: "convert en rq w = (r, w') \<Longrightarrow> w' = emit (EConvert rq) w"
  by (auto simp: convert_def Let_def split: sum.splits)

lemma export_trace:
  "export en a p fm br ps w = (r, w') \<Longrightarrow> trace w' = trace w @ [EExport a p fm br ps]"
  by (simp add: export_frame)

lemma decoded_file: "f (resolve en p) = Some (File b) \<Longrightarrow> decoded en f p = FromFile p b"
  by (simp add: decoded_def content_of_def)

lemma normalize_pass_trace:
  assumes run: "normalize_pass g en f w = (r, w')"
    and fl: "fsys w (resolve en f) = Some (File b)"
  shows "(\<exists>n. trace w' = trace w @ take n (pass_calls g f b)) \<and>
         ((\<exists>u. r = Inr u) \<longrightarrow> trace w' = trace w @ pass_calls g f b)"
proof -
  let ?a0 = "FromFile f b"
  let ?fm = "format (audio_config g)"
  let ?br = "Some (bitrate (audio_config g))"
  let ?ps = "[''-ar'', str_int (sample_rate (audio_config g))]"
  obtain r1 w1 where s1: "from_file en f w = (r1, w1)" by (cases "from_file en f w")
  from from_file_world[OF s1] have t1: "trace w1 = trace w @ [EFromFile f]" by simp
  show ?thesis
  proof (cases r1)
    case (Inl e)
    with run s1 have "r = Inl e" "w' = w1" by (simp_all add: normalize_pass_def bindE_def)
    with t1 have "trace w' = trace w @ take 1 (pass_calls g f b)" "\<not> (\<exists>u. r = Inr u)"
      by (simp_all add: pass_calls_def)
    then show ?thesis by blast
  next
    case (Inr a0)
    with from_file_Inr[of en f w a0 w1] s1 fl have a0: "a0 = ?a0"
      by (simp add: decoded_file)
    obtain r2 w2 where s2: "normalize_seg en ?a0 w1 = (r2, w2)"
      by (cases "normalize_seg en ?a0 w1")
    from normalize_seg_world[OF s2] t1
    have t2: "trace w2 = trace w @ [EFromFile f, ENormalize ?a0]" by simp
    show ?thesis
    proof (cases r2)
      case (Inl e)
      with run s1 s2 Inr a0 have "r = Inl e" "w' = w2"
        by (simp_all add: normalize_pass_def bindE_def)
      with t2 have "trace w' = trace w @ take 2 (pass_calls g f b)" "\<not> (\<exists>u. r = Inr u)"
        by (simp_all add: pass_calls_def)
      then show ?thesis by blast
    next
      case (Inr a1)
      with normalize_seg_Inr[of en ?a0 w1 a1 w2] s2 have a1: "a1 = Normalize ?a0" by simp
      obtain r3 w3 where s3: "gain_seg en (Normalize ?a0) 4 w2 = (r3, w3)"
        by (cases "gain_seg en (Normalize ?a0) 4 w2")
      from gain_seg_world[OF s3] t2
      have t3: "trace w3 = trace w @ [EFromFile f, ENormalize ?a0, EGain (Normalize ?a0) 4]"
        by simp
      show ?thesis
      proof (cases r3)
        case (Inl e)
        with run s1 s2 s3 \<open>r1 = Inr a0\<close> a0 \<open>r2 = Inr a1\<close> a1 have "r = Inl e" "w' = w3"
          by (simp_all add: normalize_pass_def bindE_def)
        with t3 have "trace w' = trace w @ take 3 (pass_calls g f b)" "\<not> (\<exists>u. r = Inr u)"
          by (simp_all add: pass_calls_def)
        then show ?thesis by blast
      next
        case (Inr a2)
        with gain_seg_Inr[of en "Normalize ?a0" 4 w2 a2 w3] s3
        have a2: "a2 = Gain (Normalize ?a0) 4" by simp
        from run s1 s2 s3 \<open>r1 = Inr a0\<close> a0 \<open>r2 = Inr a1\<close> a1 Inr a2
        have s4: "export en (Gain (Normalize ?a0) 4) f ?fm ?br ?ps w3 = (r, w')"
          by (simp add: normalize_pass_def bindE_def)
        from export_trace[OF s4] t3 have "trace w' = trace w @ pass_calls g f b"
          by (simp add: pass_calls_def)
        moreover from this have "trace w' = trace w @ take 4 (pass_calls g f b)"
          by (simp add: pass_calls_def)
        ultimately show ?thesis by blast
      qed
    qed
  qed
qed

lemma try_body_steps:
  assumes run: "try_body g en i sp tx vc w = (r, w')"
  shows "(\<exists>e. r = Inl e \<and> trace w' = trace w @ [EConvert (request_of vc tx)]) \<or>
         (\<exists>b w1. trace w1 = trace w @ [EConvert (request_of vc tx), EWrite (filename_of g i sp) b] \<and>
            ((\<exists>e. r = Inl e \<and> w' = w1) \<or>
             (fsys w1 (resolve en (filename_of g i sp)) = Some (File b) \<and>
              (if normalize (audio_config g)
               then \<exists>r2. normalize_pass g en (filename_of g i sp) w1 = (r2, w') \<and>
                         ((\<exists>u. r = Inr u) \<longrightarrow> (\<exists>u. r2 = Inr u))
               else w' = w1))))"
proof -
  let ?f = "filename_of g i sp"
  let ?c = "EConvert (request_of vc tx)"
  obtain r0 w0 where s0: "convert en (request_of vc tx) w = (r0, w0)"
    by (cases "convert en (request_of vc tx) w")
  from convert_world[OF s0] have t0: "trace w0 = trace w @ [?c]" by simp
  show ?thesis
  proof (cases r0)
    case (Inl e)
    with run s0 have "r = Inl e" "w' = w0" by (simp_all add: try_body_def bindE_def)
    with t0 show ?thesis by simp
  next
    case (Inr b)
    obtain r1 w1 where s1: "write_file en ?f b w0 = (r1, w1)"
      by (cases "write_file en ?f b w0")
    from write_file_trace[OF s1] t0 have t1: "trace w1 = trace w @ [?c, EWrite ?f b]" by simp
    have "(\<exists>e. r = Inl e \<and> w' = w1) \<or>
             (fsys w1 (resolve en ?f) = Some (File b) \<and>
              (if normalize (audio_config g)
               then \<exists>r2. normalize_pass g en ?f w1 = (r2, w') \<and>
                         ((\<exists>u. r = Inr u) \<longrightarrow> (\<exists>u. r2 = Inr u))
               else w' = w1))"
    proof (cases r1)
      case (Inl e)
      with run s0 s1 \<open>r0 = Inr b\<close> have "r = Inl e" "w' = w1"
        by (simp_all add: try_body_def bindE_def Let_def)
      then show ?thesis by simp
    next
      case (Inr u)
      with s1 have fl: "fsys w1 (resolve en ?f) = Some (File b)"
        by (auto dest: write_file_Inr)
      show ?thesis
      proof (cases "normalize (audio_config g)")
        case False
        with run s0 s1 \<open>r0 = Inr b\<close> Inr have "w' = w1"
          by (simp add: try_body_def bindE_def Let_def returnE_def)
        with fl False show ?thesis by simp
      next
        case True
        obtain r2 w2 where s2: "normalize_pass g en ?f w1 = (r2, w2)"
          by (cases "normalize_pass g en ?f w1")
        from run s0 s1 s2 \<open>r0 = Inr b\<close> Inr True have "w' = w2"
          by (cases r2) (simp_all add: try_body_def bindE_def Let_def returnE_def)
        moreover from run s0 s1 s2 \<open>r0 = Inr b\<close> Inr True
        have "(\<exists>u. r = Inr u) \<longrightarrow> (\<exists>u. r2 = Inr u)"
          by (cases r2) (auto simp add: try_body_def bindE_def Let_def returnE_def)
        ultimately show ?thesis using fl True s2 by simp
      qed
    qed
    with t1 show ?thesis
      by - (rule disjI2, rule exI[of _ b], rule exI[of _ w1], rule conjI, assumption+)
  qed
qed

lemma take_two_more: "take (Suc (Suc n)) (a # b # xs) = a # b # take n xs"
  by simp

lemma try_body_calls:
  assumes run: "try_body g en i sp tx vc w = (r, w')"
  shows "\<exists>b k. trace w' = trace w @
           take k (EConvert (request_of vc tx) # EWrite (filename_of g i sp) b #
                   (if normalize (audio_config g) then pass_calls g (filename_of g i sp) b else []))"
proof -
  let ?f = "filename_of g i sp"
  let ?c = "EConvert (request_of vc tx)"
  let ?p = "\<lambda>b. if normalize (audio_config g) then pass_calls g ?f b else []"
  from try_body_steps[OF run] show ?thesis
  proof (elim disjE exE conjE)
    fix e assume "r = Inl e" "trace w' = trace w @ [?c]"
    then have "trace w' = trace w @ take 1 (?c # EWrite ?f [] # ?p [])" by simp
    then show ?thesis by - (rule exI, rule exI, assumption)
  next
    fix b w1 e
    assume "trace w1 = trace w @ [?c, EWrite ?f b]" "r = Inl e" "w' = w1"
    then have "trace w' = trace w @ take 2 (?c # EWrite ?f b # ?p b)" by simp
    then show ?thesis by - (rule exI, rule exI, assumption)
  next
    fix b w1
    assume t1: "trace w1 = trace w @ [?c, EWrite ?f b]"
      and fl: "fsys w1 (resolve en ?f) = Some (File b)"
      and rest: "if normalize (audio_config g)
               then \<exists>r2. normalize_pass g en ?f w1 = (r2, w') \<and>
                         ((\<exists>u. r = Inr u) \<longrightarrow> (\<exists>u. r2 = Inr u))
               else w' = w1"
    show ?thesis
    proof (cases "normalize (audio_config g)")
      case False
      with rest t1 have "trace w' = trace w @ take 2 (?c # EWrite ?f b # ?p b)" by simp
      then show ?thesis by - (rule exI, rule exI, assumption)
    next
      case True
      with rest obtain r2 where s2: "normalize_pass g en ?f w1 = (r2, w')" by auto
      from normalize_pass_trace[OF s2 fl] obtain n where
        "trace w' = trace w1 @ take n (pass_calls g ?f b)" by (elim conjE exE)
      with t1 True have "trace w' = trace w @ take (Suc (Suc n)) (?c # EWrite ?f b # ?p b)"
        by (simp only: take_two_more if_True append_assoc append_Cons append_Nil)
      then show ?thesis by - (rule exI, rule exI, assumption)
    qed
  qed
qed

lemma try_body_calls_success:
  assumes run: "try_body g en i sp tx vc w = (Inr u, w')"
  shows "\<exists>b. trace w' = trace w @
           EConvert (request_of vc tx) # EWrite (filename_of g i sp) b #
                   (if normalize (audio_config g) then pass_calls g (filename_of g i sp) b else [])"
proof -
  let ?f = "filename_of g i sp"
  let ?c = "EConvert (request_of vc tx)"
  let ?p = "\<lambda>b. if normalize (audio_config g) then pass_calls g ?f b else []"
  from try_body_steps[OF run] show ?thesis
  proof (elim disjE exE conjE)
    fix e :: error assume "Inr u = Inl e"
    then show ?thesis by simp
  next
    fix e :: error and b :: bytes and w1 :: world assume "Inr u = Inl e"
    then show ?thesis by simp
  next
    fix b w1
    assume t1: "trace w1 = trace w @ [?c, EWrite ?f b]"
      and fl: "fsys w1 (resolve en ?f) = Some (File b)"
      and rest: "if normalize (audio_config g)
               then \<exists>r2. normalize_pass g en ?f w1 = (r2, w') \<and>
                         ((\<exists>v. Inr u = Inr v) \<longrightarrow> (\<exists>u. r2 = Inr u))
               else w' = w1"
    show ?thesis
    proof (cases "normalize (audio_config g)")
      case False
      with rest t1 have "trace w' = trace w @ ?c # EWrite ?f b # ?p b" by simp
      then show ?thesis by - (rule exI, assumption)
    next
      case True
      with rest obtain r2 u2 where s2: "normalize_pass g en ?f w1 = (r2, w')" and "r2 = Inr u2"
        by auto
      with normalize_pass_trace[OF s2 fl] have "trace w' = trace w1 @ pass_calls g ?f b"
        by simp
      with t1 True have "trace w' = trace w @ ?c # EWrite ?f b # ?p b"
        by simp
      then show ?thesis by - (rule exI, assumption)
    qed
  qed
qed

lemma no_pass_call_prefix:
  "\<not> list_ex is_pass_call (take n [EConvert rq, EWrite f b])"
proof -
  have "set (take n [EConvert rq, EWrite f b]) \<subseteq> {EConvert rq, EWrite f b}"
    using set_take_subset[of n "[EConvert rq, EWrite f b]"] by simp
  then show ?thesis
    by (auto simp: list_ex_iff is_pass_call_def)
qed

lemma drop_own_length: "drop (length xs) (xs @ ys) = ys"
  by simp


lemma try_body_env_ok:
  "\<not> is_dir (fsys w) (resolve env_ok (filename_of g i sp)) \<Longrightarrow>
     \<exists>w'. try_body g env_ok i sp tx vc w = (Inr (filename_of g i sp), w')"
  by (simp add: try_body_def normalize_pass_def bindE_def returnE_def convert_def write_file_def
        from_file_def normalize_seg_def gain_seg_def export_def codec_def Let_def env_ok_def
        is_dir_def)

lemma normalize_flags:
  "normalize (audio_config generator0)" "\<not> normalize (audio_config generator_plain)"
  by (simp_all add: generator0_def generator_plain_def add_voice_def default_AudioConfig_def)

lemma world0_no_dir: "\<not> is_dir (fsys world0) q"
  by (simp add: is_dir_def world0_def)

text \<open>
  C8. With \<^verbatim>\<open>audio_config.normalize\<close> set, the calls a line makes are the
  synthesis, the write of the bytes, and then, with nothing in between, the pass: the
  written file is opened again, normalised, raised by 4 dB and exported over the same
  path with the configured format, bitrate and sample rate. A line that completes made
  all of them; a line that raised made a beginning of that sequence. With the flag off,
  a line opens, normalises, raises and exports nothing: a line that completes made the
  synthesis and the write only.
\<close>

theorem normalization_pass:
  assumes "try_body g en i sp tx vc w = (r, w')"
  shows "(normalize (audio_config g) \<longrightarrow>
            (\<exists>b n. trace w' = trace w @
               take n (EConvert (request_of vc tx) # EWrite (filename_of g i sp) b #
                       pass_calls g (filename_of g i sp) b)) \<and>
            ((\<exists>u. r = Inr u) \<longrightarrow>
               (\<exists>b. trace w' = trace w @
                  EConvert (request_of vc tx) # EWrite (filename_of g i sp) b #
                  pass_calls g (filename_of g i sp) b))) \<and>
         (\<not> normalize (audio_config g) \<longrightarrow>
            \<not> list_ex is_pass_call (drop (length (trace w)) (trace w')) \<and>
            ((\<exists>u. r = Inr u) \<longrightarrow>
               (\<exists>b. trace w' = trace w @
                  [EConvert (request_of vc tx), EWrite (filename_of g i sp) b])))"
proof (intro conjI impI)
  assume n: "normalize (audio_config g)"
  from try_body_calls[OF assms] n
  show "\<exists>b n. trace w' = trace w @
               take n (EConvert (request_of vc tx) # EWrite (filename_of g i sp) b #
                       pass_calls g (filename_of g i sp) b)"
    by (simp only: if_True)
  assume "\<exists>u. r = Inr u"
  then obtain u where "r = Inr u" by (elim exE)
  with assms have "try_body g en i sp tx vc w = (Inr u, w')" by simp
  from try_body_calls_success[OF this] n
  show "\<exists>b. trace w' = trace w @
                  EConvert (request_of vc tx) # EWrite (filename_of g i sp) b #
                  pass_calls g (filename_of g i sp) b"
    by (simp only: if_True)
next
  assume n: "\<not> normalize (audio_config g)"
  from try_body_calls[OF assms] n obtain b k where
    "trace w' = trace w @ take k [EConvert (request_of vc tx), EWrite (filename_of g i sp) b]"
    by (simp only: if_False) (elim exE)
  then have "drop (length (trace w)) (trace w')
               = take k [EConvert (request_of vc tx), EWrite (filename_of g i sp) b]"
    by (simp only: drop_own_length)
  then show "\<not> list_ex is_pass_call (drop (length (trace w)) (trace w'))"
    by (simp only: no_pass_call_prefix not_False_eq_True)
  assume "\<exists>u. r = Inr u"
  then obtain u where "r = Inr u" by (elim exE)
  with assms have "try_body g en i sp tx vc w = (Inr u, w')" by simp
  from try_body_calls_success[OF this] n
  show "\<exists>b. trace w' = trace w @ [EConvert (request_of vc tx), EWrite (filename_of g i sp) b]"
    by (simp only: if_False)
qed

theorem normalization_pass_witness:
  "normalize (audio_config generator0) \<and>
   \<not> normalize (audio_config generator_plain) \<and>
   (\<exists>w'. try_body generator0 env_ok 0 ''B'' ''Hi'' voice_b world0
            = (Inr (filename_of generator0 0 ''B''), w') \<and>
         (\<exists>b. trace w' = trace world0 @
                  EConvert (request_of voice_b ''Hi'') # EWrite (filename_of generator0 0 ''B'') b #
                  pass_calls generator0 (filename_of generator0 0 ''B'') b)) \<and>
   (\<exists>w'. try_body generator_plain env_ok 0 ''B'' ''Hi'' voice_b world0
            = (Inr (filename_of generator_plain 0 ''B''), w') \<and>
         \<not> list_ex is_pass_call (drop (length (trace world0)) (trace w')) \<and>
         (\<exists>b. trace w' = trace world0 @
                  [EConvert (request_of voice_b ''Hi''), EWrite (filename_of generator_plain 0 ''B'') b]))"
proof -
  from try_body_env_ok[OF world0_no_dir, of generator0 0 "''B''" "''Hi''" voice_b] obtain w1 where
    r1: "try_body generator0 env_ok 0 ''B'' ''Hi'' voice_b world0
            = (Inr (filename_of generator0 0 ''B''), w1)" by (elim exE)
  from try_body_env_ok[OF world0_no_dir, of generator_plain 0 "''B''" "''Hi''" voice_b] obtain w2 where
    r2: "try_body generator_plain env_ok 0 ''B'' ''Hi'' voice_b world0
            = (Inr (filename_of generator_plain 0 ''B''), w2)" by (elim exE)
  have ok1: "\<exists>u. Inr (filename_of generator0 0 ''B'') = (Inr u :: error + path)" by simp
  have ok2: "\<exists>u. Inr (filename_of generator_plain 0 ''B'') = (Inr u :: error + path)" by simp
  note a = normalization_pass[OF r1, THEN conjunct1, THEN mp, OF normalize_flags(1),
             THEN conjunct2, THEN mp, OF ok1]
  note b = normalization_pass[OF r2, THEN conjunct2, THEN mp, OF normalize_flags(2)]
  note b1 = b[THEN conjunct1]
  note b2 = b[THEN conjunct2, THEN mp, OF ok2]
  from r1 a have A: "\<exists>w'. try_body generator0 env_ok 0 ''B'' ''Hi'' voice_b world0
            = (Inr (filename_of generator0 0 ''B''), w') \<and>
         (\<exists>b. trace w' = trace world0 @
                  EConvert (request_of voice_b ''Hi'') # EWrite (filename_of generator0 0 ''B'') b #
                  pass_calls generator0 (filename_of generator0 0 ''B'') b)"
    by - (rule exI[of _ w1], rule conjI, assumption+)
  from r2 b1 b2 have B: "\<exists>w'. try_body generator_plain env_ok 0 ''B'' ''Hi'' voice_b world0
            = (Inr (filename_of generator_plain 0 ''B''), w') \<and>
         \<not> list_ex is_pass_call (drop (length (trace world0)) (trace w')) \<and>
         (\<exists>b. trace w' = trace world0 @
                  [EConvert (request_of voice_b ''Hi''), EWrite (filename_of generator_plain 0 ''B'') b])"
    by - (rule exI[of _ w2], intro conjI, assumption+)
  from normalize_flags A B show ?thesis by (intro conjI)
qed

subsection \<open>Exceptions inside the mixer\<close>

lemma makedirs_returns:
  assumes "p \<noteq> []" and "\<not> list_ex (is_file (fsys w)) (dir_chain (resolve en p))"
    and "env_mkdir_fault en (emit (EMakeDirs p) w) (resolve en p) = None"
  shows "makedirs en p w =
           (Inr (), (emit (EMakeDirs p) w)\<lparr>fsys := mk_dirs (dir_chain (resolve en p)) (fsys w)\<rparr>)"
proof -
  from assms(1) have "resolve en p \<in> set (dir_chain (resolve en p))"
    by (intro dir_chain_self resolve_nonempty)
  with assms(2) have "\<not> is_file (fsys w) (resolve en p)" by (auto simp: list_ex_iff)
  with assms show ?thesis
    by (simp add: makedirs_def Let_def)
qed

lemma resolve_env_corrupt: "resolve env_corrupt p = resolve env_ok p"
  by (simp add: resolve_def env_corrupt_def)

lemma segment_path_env_corrupt: "segment_path_of env_corrupt p = segment_path_of env_ok p"
  by (simp add: segment_path_of_def env_corrupt_def)

lemma corrupt_decode_raises:
  "\<exists>w1. mixer_body mixer0 env_corrupt [''000_A.mp3''] 50 world1 = (Inl CodecError, w1)"
proof -
  let ?w1 = "(emit (EMakeDirs ''output/podcast'') world1)
                \<lparr>fsys := mk_dirs (dir_chain ''/work/output/podcast'') (fsys world1)\<rparr>"
  have r: "resolve env_corrupt ''output/podcast'' = ''/work/output/podcast''"
    by (simp add: resolve_env_corrupt resolve_env_ok)
  have nf: "env_mkdir_fault env_corrupt x y = None" for x y
    by (simp add: env_corrupt_def env_ok_def)
  have ne: "''output/podcast'' \<noteq> []" by simp
  have "makedirs env_corrupt ''output/podcast'' world1 = (Inr (), ?w1)"
    using makedirs_returns[of "''output/podcast''" world1 env_corrupt, unfolded r,
            OF ne no_file_in_chain_world1 nf] .
  then have mk: "makedirs env_corrupt (mixer_output_dir mixer0) world1 = (Inr (), ?w1)"
    by (simp add: mixer0_def)
  have f1: "fsys ?w1 ''/work/000_A.mp3'' = Some (File [1, 2, 3])"
    by (simp add: mk_dirs_def inputs_not_in_chain world1_def)
  obtain v w2 where v: "validate env_corrupt [''000_A.mp3''] [] ?w1 = (v, w2)"
    by (cases "validate env_corrupt [''000_A.mp3''] [] ?w1")
  have sp: "segment_path_of env_corrupt ''000_A.mp3'' = ''/work/000_A.mp3''"
    by (simp add: segment_path_of_def isabs_def join_def env_corrupt_def env_ok_def)
  have rs: "resolve env_corrupt ''/work/000_A.mp3'' = ''/work/000_A.mp3''"
    by (simp add: resolve_def isabs_def)
  note vs = validate_spec[OF v]
  note f2 = vs[THEN conjunct1]
  note vv' = vs[THEN conjunct2, THEN conjunct2]
  from vv' f1 have vv: "v = Inr (Some [''/work/000_A.mp3''])"
    by (simp add: sp rs)
  have ff: "from_file env_corrupt ''/work/000_A.mp3'' w2
              = (Inl CodecError, emit (EFromFile ''/work/000_A.mp3'') w2)"
    using f1 f2
    by (simp add: from_file_def Let_def codec_def resolve_def isabs_def env_corrupt_def)
  have "mix_files mixer0 env_corrupt 50 [''/work/000_A.mp3''] w2
          = (Inl CodecError, emit (EFromFile ''/work/000_A.mp3'') w2)"
    using ff by (simp add: mix_files_def bindE_def)
  with mk v vv have "mixer_body mixer0 env_corrupt [''000_A.mp3''] 50 world1
          = (Inl CodecError, emit (EFromFile ''/work/000_A.mp3'') w2)"
    by (simp add: mixer_body_def bindE_def)
  then show ?thesis by - (rule exI, assumption)
qed


text \<open>
  C6. \<^verbatim>\<open>PodcastMixer._run\<close> never raises: whatever the input list, the crossfade,
  the filesystem and the behaviour of the operating system and of the audio library
  (every one of their calls may raise an \<^verbatim>\<open>Exception\<close>), the call returns a string,
  and that string is either empty or the output path, which is not empty. After the
  empty-input check, whenever the body of the \<^verbatim>\<open>try\<close> (the directory call, the
  validation, the decoding, the merging, the export) raises, the call returns the empty
  string, in the world the raising call left; whenever the body returns, the call
  returns what the body returned.
\<close>

theorem mixer_never_raises:
  "\<exists>s w'. PodcastMixer_run m en afs c w = (Inr s, w') \<and>
          (s = [] \<or> (s = output_file_of m \<and> s \<noteq> [])) \<and>
          (afs \<noteq> [] \<longrightarrow>
             (\<forall>e w1. mixer_body m en afs (case c of None \<Rightarrow> 50 | Some x \<Rightarrow> x) w = (Inl e, w1)
                      \<longrightarrow> s = [] \<and> w' = w1) \<and>
             (\<forall>x w1. mixer_body m en afs (case c of None \<Rightarrow> 50 | Some x \<Rightarrow> x) w = (Inr x, w1)
                      \<longrightarrow> s = x \<and> w' = w1))"
proof (cases "afs = []")
  case True
  then show ?thesis by (simp add: PodcastMixer_run_def returnE_def)
next
  case False
  define c' where "c' = (case c of None \<Rightarrow> 50 | Some x \<Rightarrow> x)"
  obtain r w1 where b: "mixer_body m en afs c' w = (r, w1)"
    by (cases "mixer_body m en afs c' w")
  show ?thesis
  proof (cases r)
    case (Inl e)
    with b False show ?thesis
      by (simp add: PodcastMixer_run_def tryE_def returnE_def c'_def)
  next
    case (Inr s)
    with b mixer_body_result[of m en afs c' w s w1] False show ?thesis
      by (auto simp add: PodcastMixer_run_def tryE_def output_file_nonempty c'_def)
  qed
qed

theorem mixer_never_raises_witness:
  "[''000_A.mp3''] \<noteq> [] \<and>
   (\<exists>w1. mixer_body mixer0 env_corrupt [''000_A.mp3''] 50 world1 = (Inl CodecError, w1) \<and>
         PodcastMixer_run mixer0 env_corrupt [''000_A.mp3''] None world1 = (Inr [], w1)) \<and>
   (\<exists>w1. mixer_body mixer0 env_ok [''000_A.mp3'', ''002_A.mp3''] 50 world1
            = (Inr ''output/podcast/podcast_final.mp3'', w1) \<and>
         PodcastMixer_run mixer0 env_ok [''000_A.mp3'', ''002_A.mp3''] None world1
            = (Inr ''output/podcast/podcast_final.mp3'', w1))"
proof -
  from corrupt_decode_raises obtain w1 where
    b1: "mixer_body mixer0 env_corrupt [''000_A.mp3''] 50 world1 = (Inl CodecError, w1)"
    by (elim exE)
  from mixer_never_raises[of mixer0 env_corrupt "[''000_A.mp3'']" None world1] obtain s w' where
    r1: "PodcastMixer_run mixer0 env_corrupt [''000_A.mp3''] None world1 = (Inr s, w')"
    and h1: "[''000_A.mp3''] \<noteq> [] \<longrightarrow>
             (\<forall>e w1. mixer_body mixer0 env_corrupt [''000_A.mp3''] (case None of None \<Rightarrow> 50 | Some x \<Rightarrow> x) world1 = (Inl e, w1)
                      \<longrightarrow> s = [] \<and> w' = w1) \<and>
             (\<forall>x w1. mixer_body mixer0 env_corrupt [''000_A.mp3''] (case None of None \<Rightarrow> 50 | Some x \<Rightarrow> x) world1 = (Inr x, w1)
                      \<longrightarrow> s = x \<and> w' = w1)"
    by (elim exE conjE)
  from h1 b1 have "s = [] \<and> w' = w1" by simp
  with r1 have A: "PodcastMixer_run mixer0 env_corrupt [''000_A.mp3''] None world1 = (Inr [], w1)"
    by simp
  from mixer0_world1_succeeds[of None] obtain w2 where
    r2: "PodcastMixer_run mixer0 env_ok [''000_A.mp3'', ''002_A.mp3''] None world1
            = (Inr ''output/podcast/podcast_final.mp3'', w2)" by (elim exE)
  have n: "''output/podcast/podcast_final.mp3'' \<noteq> []" by simp
  from run_success_body[OF r2 n]
  have b2: "mixer_body mixer0 env_ok [''000_A.mp3'', ''002_A.mp3''] 50 world1
            = (Inr ''output/podcast/podcast_final.mp3'', w2)" by simp
  have ne: "[''000_A.mp3''] \<noteq> []" by simp
  from b1 A have C1: "\<exists>w1. mixer_body mixer0 env_corrupt [''000_A.mp3''] 50 world1 = (Inl CodecError, w1) \<and>
         PodcastMixer_run mixer0 env_corrupt [''000_A.mp3''] None world1 = (Inr [], w1)"
    by - (rule exI[of _ w1], rule conjI, assumption+)
  from b2 r2 have C2: "\<exists>w1. mixer_body mixer0 env_ok [''000_A.mp3'', ''002_A.mp3''] 50 world1
            = (Inr ''output/podcast/podcast_final.mp3'', w1) \<and>
         PodcastMixer_run mixer0 env_ok [''000_A.mp3'', ''002_A.mp3''] None world1
            = (Inr ''output/podcast/podcast_final.mp3'', w1)"
    by - (rule exI[of _ w2], rule conjI, assumption+)
  from ne C1 C2 show ?thesis by (intro conjI)
qed

subsection \<open>Lines that are skipped, lines that fail\<close>

lemma get_strip_field:
  "str_field d k \<Longrightarrow> get_strip (DictSegment d) k = Inr (strip (field d k))"
  by (auto simp: str_field_def get_strip_def field_def split: option.splits pyval.splits)


text \<open>
  C7. A line of a dictionary whose speaker or text is empty once stripped of the
  whitespace \<^verbatim>\<open>str.strip()\<close> removes, or whose stripped speaker has no entry in
  \<^verbatim>\<open>voice_configs\<close>, is passed over: it contributes no path and makes no call, the
  filesystem and the list are as the lines before it left them, and the lines after it
  are processed from there under their own positions.
\<close>

theorem skipped_line_produces_nothing:
  assumes "str_field d ''speaker''" and "str_field d ''text''"
    and "strip (field d ''speaker'') = [] \<or> strip (field d ''text'') = [] \<or>
         voice_configs g (strip (field d ''speaker'')) = None"
  shows "run_loop g en i (pre @ DictSegment d # post) afs w =
           (case run_loop g en i pre afs w of
              (Inl e, w') \<Rightarrow> (Inl e, w')
            | (Inr afs', w') \<Rightarrow> run_loop g en (Suc (i + length pre)) post afs' w') \<and>
         line_outcome g en k (DictSegment d) v = (None, v)"
proof -
  note s = get_strip_field[OF assms(1)] get_strip_field[OF assms(2)]
  have "run_loop g en k (DictSegment d # post) a v = run_loop g en (Suc k) post a v" for k a v
    using assms(3) by (auto simp: s)
  then have "run_loop g en i (pre @ DictSegment d # post) afs w =
           (case run_loop g en i pre afs w of
              (Inl e, w') \<Rightarrow> (Inl e, w')
            | (Inr afs', w') \<Rightarrow> run_loop g en (Suc (i + length pre)) post afs' w')"
    by (simp add: run_loop_append split: prod.splits sum.splits)
  moreover have "line_outcome g en k (DictSegment d) v = (None, v)"
    using assms(3) by (auto simp: line_outcome_def s)
  ultimately show ?thesis by (rule conjI)
qed


theorem skipped_line_produces_nothing_witness:
  "str_field [(''speaker'', PyStr (CHR 0xC2 # CHR 0xA0 # ''B'')),
              (''text'', PyStr [CHR 0xE3, CHR 0x80, CHR 0x80])] ''speaker'' \<and>
   str_field [(''speaker'', PyStr (CHR 0xC2 # CHR 0xA0 # ''B'')),
              (''text'', PyStr [CHR 0xE3, CHR 0x80, CHR 0x80])] ''text'' \<and>
   strip (field [(''speaker'', PyStr (CHR 0xC2 # CHR 0xA0 # ''B'')),
                 (''text'', PyStr [CHR 0xE3, CHR 0x80, CHR 0x80])] ''speaker'') = ''B'' \<and>
   strip (field [(''speaker'', PyStr (CHR 0xC2 # CHR 0xA0 # ''B'')),
                 (''text'', PyStr [CHR 0xE3, CHR 0x80, CHR 0x80])] ''text'') = [] \<and>
   run_loop generator0 env_ok 0
       ([line ''A'' ''Hi''] @
        DictSegment [(''speaker'', PyStr (CHR 0xC2 # CHR 0xA0 # ''B'')),
                     (''text'', PyStr [CHR 0xE3, CHR 0x80, CHR 0x80])] # [line ''B'' ''Bye''])
       [] world0 =
     (case run_loop generator0 env_ok 0 [line ''A'' ''Hi''] [] world0 of
        (Inl e, w') \<Rightarrow> (Inl e, w')
      | (Inr afs', w') \<Rightarrow>
          run_loop generator0 env_ok (Suc (0 + length [line ''A'' ''Hi''])) [line ''B'' ''Bye'']
            afs' w') \<and>
   line_outcome generator0 env_ok 1
       (DictSegment [(''speaker'', PyStr (CHR 0xC2 # CHR 0xA0 # ''B'')),
                     (''text'', PyStr [CHR 0xE3, CHR 0x80, CHR 0x80])]) world0 = (None, world0)"
proof -
  let ?d = "[(''speaker'', PyStr (CHR 0xC2 # CHR 0xA0 # ''B'')),
             (''text'', PyStr [CHR 0xE3, CHR 0x80, CHR 0x80])]"
  have a: "str_field ?d ''speaker''" and b: "str_field ?d ''text''"
    by (simp_all add: str_field_def)
  have s: "strip (field ?d ''speaker'') = ''B''" and t: "strip (field ?d ''text'') = []"
    by (simp_all add: field_def strip_eval)
  from t have c: "strip (field ?d ''speaker'') = [] \<or> strip (field ?d ''text'') = [] \<or>
         voice_configs generator0 (strip (field ?d ''speaker'')) = None"
    by (intro disjI2 disjI1)
  note th = skipped_line_produces_nothing[OF a b c, of env_ok 0 "[line ''A'' ''Hi'']"
              "[line ''B'' ''Bye'']" "[]" world0 1 world0]
  from a b s t th[THEN conjunct1] th[THEN conjunct2] show ?thesis
    by (intro conjI)
qed

lemma run_loop_step:
  assumes "dict_like seg"
  shows "run_loop g en i (seg # rest) afs w =
           (case line_outcome g en i seg w of
              (None, w') \<Rightarrow> run_loop g en (Suc i) rest afs w'
            | (Some f, w') \<Rightarrow> run_loop g en (Suc i) rest (afs @ [f]) w')"
proof -
  from get_strip_dict_like[OF assms] obtain sp tx where
    s: "get_strip seg ''speaker'' = Inr sp" "get_strip seg ''text'' = Inr tx" by blast
  show ?thesis
    by (auto simp: s line_outcome_def try_line_cases
             split: option.splits prod.splits sum.splits dest: try_body_filename)
qed

lemma run_loop_produced:
  "list_all dict_like segs \<Longrightarrow>
     run_loop g en i segs afs w =
       (Inr (afs @ fst (produced g en i segs w)), snd (produced g en i segs w))"
proof (induction segs arbitrary: i afs w)
  case Nil
  then show ?case by simp
next
  case (Cons seg rest)
  from Cons.prems have d: "dict_like seg" and r: "list_all dict_like rest" by simp_all
  show ?case
    unfolding run_loop_step[OF d]
    by (simp add: Cons.IH[OF r] split: prod.splits option.splits del: run_loop.simps)
qed


lemma write_file_dirs:
  "write_file en p b w = (r, w') \<Longrightarrow> is_dir (fsys w') q = is_dir (fsys w) q"
  by (auto simp: write_file_def Let_def is_dir_def split: if_splits option.splits fault.splits)

lemma export_dirs:
  "export en a p fm br ps w = (r, w') \<Longrightarrow> is_dir (fsys w') q = is_dir (fsys w) q"
  by (auto simp: export_def Let_def is_dir_def split: if_splits sum.splits fault.splits option.splits)

lemma normalize_pass_dirs:
  assumes "normalize_pass g en f w = (r, w')"
  shows "is_dir (fsys w') q = is_dir (fsys w) q"
proof -
  obtain r1 w1 where s1: "from_file en f w = (r1, w1)" by (cases "from_file en f w")
  from from_file_world[OF s1] have d1: "fsys w1 = fsys w" by simp
  show ?thesis
  proof (cases r1)
    case (Inl e)
    with assms s1 d1 show ?thesis by (simp add: normalize_pass_def bindE_def)
  next
    case (Inr a0)
    obtain r2 w2 where s2: "normalize_seg en a0 w1 = (r2, w2)" by (cases "normalize_seg en a0 w1")
    from normalize_seg_world[OF s2] d1 have d2: "fsys w2 = fsys w" by simp
    show ?thesis
    proof (cases r2)
      case (Inl e)
      with assms s1 s2 d2 \<open>r1 = Inr a0\<close> show ?thesis by (simp add: normalize_pass_def bindE_def)
    next
      case (Inr a1)
      obtain r3 w3 where s3: "gain_seg en a1 4 w2 = (r3, w3)" by (cases "gain_seg en a1 4 w2")
      from gain_seg_world[OF s3] d2 have d3: "fsys w3 = fsys w" by simp
      show ?thesis
      proof (cases r3)
        case (Inl e)
        with assms s1 s2 s3 d3 \<open>r1 = Inr a0\<close> \<open>r2 = Inr a1\<close> show ?thesis
          by (simp add: normalize_pass_def bindE_def)
      next
        case (Inr a2)
        with assms s1 s2 s3 \<open>r1 = Inr a0\<close> \<open>r2 = Inr a1\<close>
        have "export en a2 f (format (audio_config g)) (Some (bitrate (audio_config g)))
                [''-ar'', str_int (sample_rate (audio_config g))] w3 = (r, w')"
          by (simp add: normalize_pass_def bindE_def)
        from export_dirs[OF this] d3 show ?thesis by (simp add: is_dir_def)
      qed
    qed
  qed
qed

lemma try_body_dirs:
  assumes "try_body g en i sp tx vc w = (r, w')"
  shows "is_dir (fsys w') q = is_dir (fsys w) q"
proof -
  let ?f = "filename_of g i sp"
  obtain r0 w0 where s0: "convert en (request_of vc tx) w = (r0, w0)"
    by (cases "convert en (request_of vc tx) w")
  from convert_world[OF s0] have d0: "fsys w0 = fsys w" by simp
  show ?thesis
  proof (cases r0)
    case (Inl e)
    with assms s0 d0 show ?thesis by (simp add: try_body_def bindE_def)
  next
    case (Inr b)
    obtain r1 w1 where s1: "write_file en ?f b w0 = (r1, w1)" by (cases "write_file en ?f b w0")
    from write_file_dirs[OF s1] d0 have d1: "is_dir (fsys w1) q = is_dir (fsys w) q"
      by (simp add: is_dir_def)
    show ?thesis
    proof (cases r1)
      case (Inl e)
      with assms s0 s1 d1 \<open>r0 = Inr b\<close> show ?thesis by (simp add: try_body_def bindE_def Let_def)
    next
      case (Inr u)
      show ?thesis
      proof (cases "normalize (audio_config g)")
        case False
        with assms s0 s1 d1 \<open>r0 = Inr b\<close> Inr show ?thesis
          by (simp add: try_body_def bindE_def Let_def returnE_def)
      next
        case True
        obtain r2 w2 where s2: "normalize_pass g en ?f w1 = (r2, w2)"
          by (cases "normalize_pass g en ?f w1")
        from assms s0 s1 s2 \<open>r0 = Inr b\<close> Inr True have "w' = w2"
          by (cases r2) (simp_all add: try_body_def bindE_def Let_def returnE_def)
        with normalize_pass_dirs[OF s2] d1 show ?thesis by simp
      qed
    qed
  qed
qed

lemma try_body_env_b_down:
  "voice_id vc \<noteq> ''voice-b'' \<Longrightarrow>
   \<not> is_dir (fsys w) (resolve env_b_down (filename_of g i sp)) \<Longrightarrow>
     \<exists>w'. try_body g env_b_down i sp tx vc w = (Inr (filename_of g i sp), w')"
  by (simp add: try_body_def normalize_pass_def bindE_def returnE_def convert_def write_file_def
        from_file_def normalize_seg_def gain_seg_def export_def codec_def Let_def
        env_b_down_def env_ok_def is_dir_def request_of_def)

lemma try_body_env_b_down_fails:
  "voice_id vc = ''voice-b'' \<Longrightarrow>
   try_body g env_b_down i sp tx vc w = (Inl ProviderError, emit (EConvert (request_of vc tx)) w)"
  by (simp add: try_body_def bindE_def convert_def env_b_down_def env_ok_def Let_def request_of_def)

lemma voice_a_registered: "voice_configs generator0 ''A'' = Some voice_a"
  by (simp add: generator0_def add_voice_def voice_a_def)

lemma line_outcome_a:
  assumes "strip tx \<noteq> []"
    and "\<forall>k sp. \<not> is_dir (fsys w) (resolve env_b_down (filename_of generator0 k sp))"
  shows "\<exists>w'. line_outcome generator0 env_b_down i (line ''A'' tx) w
                 = (Some (filename_of generator0 i ''A''), w') \<and>
              (\<forall>k sp. \<not> is_dir (fsys w') (resolve env_b_down (filename_of generator0 k sp)))"
proof -
  have v: "voice_id voice_a \<noteq> ''voice-b''" by (simp add: voice_a_def)
  from assms(2) have "\<not> is_dir (fsys w) (resolve env_b_down (filename_of generator0 i ''A''))"
    by blast
  from try_body_env_b_down[OF v this, of "strip tx"] obtain w' where
    t: "try_body generator0 env_b_down i ''A'' (strip tx) voice_a w
          = (Inr (filename_of generator0 i ''A''), w')" by (elim exE)
  have sa: "strip ''A'' = ''A''" by (simp add: strip_eval)
  from t assms(1) have "line_outcome generator0 env_b_down i (line ''A'' tx) w
                 = (Some (filename_of generator0 i ''A''), w')"
    by (simp add: line_outcome_def get_strip_line sa voice_a_registered)
  moreover from try_body_dirs[OF t] assms(2)
  have "\<forall>k sp. \<not> is_dir (fsys w') (resolve env_b_down (filename_of generator0 k sp))"
    by simp
  ultimately show ?thesis by - (rule exI[of _ w'], rule conjI, assumption+)
qed

lemma line_outcome_b:
  "\<exists>w'. line_outcome generator0 env_b_down i (line ''B'' ''Hello'') w = (None, w') \<and>
        fsys w' = fsys w"
proof -
  have v: "voice_id voice_b = ''voice-b''" by (simp add: voice_b_def)
  note t = try_body_env_b_down_fails[OF v, of generator0 i "''B''" "''Hello''" w]
  have "line_outcome generator0 env_b_down i (line ''B'' ''Hello'') w
          = (None, emit (EConvert (request_of voice_b ''Hello'')) w)"
    by (simp add: line_outcome_def get_strip_line strip_plain voice_b_registered t)
  then show ?thesis by simp
qed

lemma produced_example:
  assumes "\<forall>k sp. \<not> is_dir (fsys w) (resolve env_b_down (filename_of generator0 k sp))"
  shows "\<exists>w'. produced generator0 env_b_down 0
                 [line ''A'' ''Hi'', line ''B'' ''Hello'', line ''A'' ''Bye''] w
               = ([filename_of generator0 0 ''A'', filename_of generator0 2 ''A''], w')"
proof -
  have n: "strip ''Hi'' \<noteq> []" "strip ''Bye'' \<noteq> []" by (simp_all add: strip_eval)
  from line_outcome_a[OF n(1) assms, of 0] obtain w1 where
    l0: "line_outcome generator0 env_b_down 0 (line ''A'' ''Hi'') w
           = (Some (filename_of generator0 0 ''A''), w1)"
    and d1: "\<forall>k sp. \<not> is_dir (fsys w1) (resolve env_b_down (filename_of generator0 k sp))"
    by (elim exE conjE)
  from line_outcome_b[of 1 w1] obtain w2 where
    l1: "line_outcome generator0 env_b_down 1 (line ''B'' ''Hello'') w1 = (None, w2)"
    and f2: "fsys w2 = fsys w1" by (elim exE conjE)
  from d1 f2 have d2: "\<forall>k sp. \<not> is_dir (fsys w2) (resolve env_b_down (filename_of generator0 k sp))"
    by simp
  from line_outcome_a[OF n(2) d2, of 2] obtain w3 where
    l2: "line_outcome generator0 env_b_down 2 (line ''A'' ''Bye'') w2
           = (Some (filename_of generator0 2 ''A''), w3)"
    by (elim exE conjE)
  have "produced generator0 env_b_down 0
                 [line ''A'' ''Hi'', line ''B'' ''Hello'', line ''A'' ''Bye''] w
               = ([filename_of generator0 0 ''A'', filename_of generator0 2 ''A''], w3)"
    using l0 l1 l2 by (simp add: numeral_2_eq_2)
  then show ?thesis by - (rule exI, assumption)
qed

lemma fmt_03d_examples: "fmt_03d 0 = ''000''" "fmt_03d 2 = ''002''"
  by (simp_all add: fmt_03d_def dec.simps[of 0] dec.simps[of 2] digit_char_def numeral_3_eq_3)

lemma filename_examples:
  "filename_of generator0 0 ''A'' = ''output/audio-files/000_A.mp3''"
  "filename_of generator0 2 ''A'' = ''output/audio-files/002_A.mp3''"
  by (simp_all add: filename_of_def fmt_03d_examples generator0_def add_voice_def
        default_AudioConfig_def)

lemma makedirs_generator0:
  "\<exists>wd. makedirs env_b_down (output_dir generator0) world0 = (Inr (), wd) \<and>
         (\<forall>k sp. \<not> is_dir (fsys wd) (resolve env_b_down (filename_of generator0 k sp)))"
proof -
  let ?d = "''output/audio-files''"
  let ?wd = "(emit (EMakeDirs ?d) world0)
               \<lparr>fsys := mk_dirs (dir_chain (resolve env_b_down ?d)) (fsys world0)\<rparr>"
  have od: "output_dir generator0 = ?d" by (simp add: generator0_def add_voice_def)
  have r: "resolve env_b_down ?d = ''/work/output/audio-files''"
    by (simp add: resolve_def isabs_def join_def env_b_down_def env_ok_def)
  have nf: "env_mkdir_fault env_b_down x y = None" for x y
    by (simp add: env_b_down_def env_ok_def)
  have ne: "?d \<noteq> []" by simp
  have nofile: "\<not> list_ex (is_file (fsys world0)) (dir_chain (resolve env_b_down ?d))"
    by (simp add: list_ex_iff is_file_def world0_def)
  from makedirs_returns[OF ne nofile nf]
  have mk: "makedirs env_b_down (output_dir generator0) world0 = (Inr (), ?wd)"
    by (simp add: od)
  have "\<not> is_dir (fsys ?wd) (resolve env_b_down (filename_of generator0 k sp))" for k sp
  proof
    assume "is_dir (fsys ?wd) (resolve env_b_down (filename_of generator0 k sp))"
    then have "resolve env_b_down (filename_of generator0 k sp)
                 \<in> set (dir_chain ''/work/output/audio-files'')"
      by (simp add: is_dir_def mk_dirs_def r world0_def split: if_splits)
    from dir_chain_length[OF this] show False
      by (simp add: resolve_def isabs_def join_def env_b_down_def env_ok_def filename_of_def od)
  qed
  with mk show ?thesis by - (rule exI[of _ ?wd], simp)
qed

text \<open>
  C4. The \<^verbatim>\<open>try\<close> statement of a line never raises: when its body raises, at the
  provider, at the write or in the normalisation pass, the list is left as it was, and
  when the body completes the line's path is appended. A line whose body raises is
  followed by the next line, under the next position, with the list unchanged; a line
  whose body completes is followed by the next line with its path at the end of the
  list. On a dialogue of dictionaries with string fields the loop returns, whatever
  raises inside the lines, and what it returns is the list it was given followed by the
  paths of exactly the lines that completed, in order; the run returns that list,
  sorted, once the directory call at its start has returned.
\<close>

theorem failing_line_is_skipped:
  "(\<exists>afs' w'. try_line g en i sp tx vc afs w = (Inr afs', w') \<and>
      (case try_body g en i sp tx vc w of
         (Inl e, w1) \<Rightarrow> afs' = afs \<and> w' = w1
       | (Inr f, w1) \<Rightarrow> afs' = afs @ [f] \<and> w' = w1)) \<and>
   (get_strip seg ''speaker'' = Inr sp \<and> get_strip seg ''text'' = Inr tx \<and>
    sp \<noteq> [] \<and> tx \<noteq> [] \<and> voice_configs g sp = Some vc \<and>
    try_body g en i sp tx vc w = (Inl e, w1) \<longrightarrow>
      run_loop g en i (seg # rest) afs w = run_loop g en (Suc i) rest afs w1) \<and>
   (get_strip seg ''speaker'' = Inr sp \<and> get_strip seg ''text'' = Inr tx \<and>
    sp \<noteq> [] \<and> tx \<noteq> [] \<and> voice_configs g sp = Some vc \<and>
    try_body g en i sp tx vc w = (Inr f, w2) \<longrightarrow>
      f = filename_of g i sp \<and>
      run_loop g en i (seg # rest) afs w = run_loop g en (Suc i) rest (afs @ [f]) w2) \<and>
   (list_all dict_like dialogue \<longrightarrow>
      run_loop g en i dialogue afs w =
        (Inr (afs @ fst (produced g en i dialogue w)), snd (produced g en i dialogue w))) \<and>
   (list_all dict_like dialogue \<and> makedirs en (output_dir g) w = (Inr (), w0) \<longrightarrow>
      PodcastAudioGenerator_run g en dialogue w =
        (Inr (sort (fst (produced g en 0 dialogue w0))), snd (produced g en 0 dialogue w0)))"
proof (intro conjI impI)
  show "\<exists>afs' w'. try_line g en i sp tx vc afs w = (Inr afs', w') \<and>
      (case try_body g en i sp tx vc w of
         (Inl e, w1) \<Rightarrow> afs' = afs \<and> w' = w1
       | (Inr f, w1) \<Rightarrow> afs' = afs @ [f] \<and> w' = w1)"
    by (auto simp: try_line_cases split: prod.splits sum.splits dest: try_body_filename)
next
  assume "get_strip seg ''speaker'' = Inr sp \<and> get_strip seg ''text'' = Inr tx \<and>
    sp \<noteq> [] \<and> tx \<noteq> [] \<and> voice_configs g sp = Some vc \<and>
    try_body g en i sp tx vc w = (Inl e, w1)"
  then show "run_loop g en i (seg # rest) afs w = run_loop g en (Suc i) rest afs w1"
    by (simp add: try_line_cases)
next
  assume a: "get_strip seg ''speaker'' = Inr sp \<and> get_strip seg ''text'' = Inr tx \<and>
    sp \<noteq> [] \<and> tx \<noteq> [] \<and> voice_configs g sp = Some vc \<and>
    try_body g en i sp tx vc w = (Inr f, w2)"
  then show "f = filename_of g i sp" by (auto dest: try_body_filename)
  with a show "run_loop g en i (seg # rest) afs w = run_loop g en (Suc i) rest (afs @ [f]) w2"
    by (simp add: try_line_cases)
next
  assume "list_all dict_like dialogue"
  then show "run_loop g en i dialogue afs w =
        (Inr (afs @ fst (produced g en i dialogue w)), snd (produced g en i dialogue w))"
    by (rule run_loop_produced)
next
  assume "list_all dict_like dialogue \<and> makedirs en (output_dir g) w = (Inr (), w0)"
  then show "PodcastAudioGenerator_run g en dialogue w =
        (Inr (sort (fst (produced g en 0 dialogue w0))), snd (produced g en 0 dialogue w0))"
    using run_loop_produced[of dialogue g en 0 "[]" w0]
    by (simp add: PodcastAudioGenerator_run_def bindE_def returnE_def)
qed

theorem failing_line_is_skipped_witness:
  "try_body generator0 env_b_down 1 ''B'' ''Hello'' voice_b world0 =
     (Inl ProviderError, emit (EConvert (request_of voice_b ''Hello'')) world0) \<and>
   run_loop generator0 env_b_down 1 (line ''B'' ''Hello'' # [line ''A'' ''Bye'']) [] world0 =
     run_loop generator0 env_b_down (Suc 1) [line ''A'' ''Bye''] []
       (emit (EConvert (request_of voice_b ''Hello'')) world0) \<and>
   (\<exists>w2. try_body generator0 env_b_down 0 ''A'' ''Hi'' voice_a world0 =
            (Inr ''output/audio-files/000_A.mp3'', w2) \<and>
         run_loop generator0 env_b_down 0 (line ''A'' ''Hi'' # [line ''B'' ''Hello'']) [] world0 =
           run_loop generator0 env_b_down (Suc 0) [line ''B'' ''Hello'']
             ([] @ [''output/audio-files/000_A.mp3'']) w2) \<and>
   list_all dict_like [line ''A'' ''Hi'', line ''B'' ''Hello'', line ''A'' ''Bye''] \<and>
   (\<exists>wd w'. makedirs env_b_down (output_dir generator0) world0 = (Inr (), wd) \<and>
       PodcastAudioGenerator_run generator0 env_b_down
           [line ''A'' ''Hi'', line ''B'' ''Hello'', line ''A'' ''Bye''] world0 =
         (Inr [''output/audio-files/000_A.mp3'', ''output/audio-files/002_A.mp3''], w'))"
proof -
  let ?dialogue = "[line ''A'' ''Hi'', line ''B'' ''Hello'', line ''A'' ''Bye'']"
  let ?w1 = "emit (EConvert (request_of voice_b ''Hello'')) world0"
  have sA: "strip ''A'' = ''A''" "strip ''Hi'' = ''Hi''" by (simp_all add: strip_eval)
  have vb: "voice_id voice_b = ''voice-b''" by (simp add: voice_b_def)
  have va: "voice_id voice_a \<noteq> ''voice-b''" by (simp add: voice_a_def)
  have tb: "try_body generator0 env_b_down 1 ''B'' ''Hello'' voice_b world0 = (Inl ProviderError, ?w1)"
    by (rule try_body_env_b_down_fails[OF vb])
  have hb: "get_strip (line ''B'' ''Hello'') ''speaker'' = Inr ''B'' \<and>
            get_strip (line ''B'' ''Hello'') ''text'' = Inr ''Hello'' \<and>
            ''B'' \<noteq> [] \<and> ''Hello'' \<noteq> [] \<and> voice_configs generator0 ''B'' = Some voice_b \<and>
            try_body generator0 env_b_down 1 ''B'' ''Hello'' voice_b world0 = (Inl ProviderError, ?w1)"
    using tb by (simp add: get_strip_line strip_plain voice_b_registered)
  note fail = failing_line_is_skipped
    [where g = generator0 and en = env_b_down and i = 1 and sp = "''B''" and tx = "''Hello''"
       and vc = voice_b and afs = "[]" and w = world0 and seg = "line ''B'' ''Hello''"
       and e = ProviderError and ?w1.0 = ?w1 and rest = "[line ''A'' ''Bye'']",
     THEN conjunct2, THEN conjunct1, THEN mp, OF hb]
  from try_body_env_b_down[OF va world0_no_dir, of generator0 0 "''A''" "''Hi''"] obtain w2 where
    ta: "try_body generator0 env_b_down 0 ''A'' ''Hi'' voice_a world0
           = (Inr ''output/audio-files/000_A.mp3'', w2)"
    unfolding filename_examples by (elim exE)
  have ha: "get_strip (line ''A'' ''Hi'') ''speaker'' = Inr ''A'' \<and>
            get_strip (line ''A'' ''Hi'') ''text'' = Inr ''Hi'' \<and>
            ''A'' \<noteq> [] \<and> ''Hi'' \<noteq> [] \<and> voice_configs generator0 ''A'' = Some voice_a \<and>
            try_body generator0 env_b_down 0 ''A'' ''Hi'' voice_a world0
              = (Inr ''output/audio-files/000_A.mp3'', w2)"
    using ta by (simp add: get_strip_line sA voice_a_registered)
  note ok = failing_line_is_skipped
    [where g = generator0 and en = env_b_down and i = 0 and sp = "''A''" and tx = "''Hi''"
       and vc = voice_a and afs = "[]" and w = world0 and seg = "line ''A'' ''Hi''"
       and f = "''output/audio-files/000_A.mp3''" and ?w2.0 = w2
       and rest = "[line ''B'' ''Hello'']",
     THEN conjunct2, THEN conjunct2, THEN conjunct1, THEN mp, OF ha, THEN conjunct2]
  from ta ok have B: "\<exists>w2. try_body generator0 env_b_down 0 ''A'' ''Hi'' voice_a world0 =
            (Inr ''output/audio-files/000_A.mp3'', w2) \<and>
         run_loop generator0 env_b_down 0 (line ''A'' ''Hi'' # [line ''B'' ''Hello'']) [] world0 =
           run_loop generator0 env_b_down (Suc 0) [line ''B'' ''Hello'']
             ([] @ [''output/audio-files/000_A.mp3'']) w2"
    by - (rule exI[of _ w2], rule conjI, assumption+)
  have dl: "list_all dict_like ?dialogue" by (simp add: dict_like_line)
  from makedirs_generator0 obtain wd where
    mk: "makedirs env_b_down (output_dir generator0) world0 = (Inr (), wd)"
    and nd: "\<forall>k sp. \<not> is_dir (fsys wd) (resolve env_b_down (filename_of generator0 k sp))"
    by (elim exE conjE)
  from produced_example[OF nd] obtain w' where
    p: "produced generator0 env_b_down 0 ?dialogue wd
          = ([''output/audio-files/000_A.mp3'', ''output/audio-files/002_A.mp3''], w')"
    unfolding filename_examples by (elim exE)
  have hr: "list_all dict_like ?dialogue \<and>
            makedirs env_b_down (output_dir generator0) world0 = (Inr (), wd)"
    using dl mk by (rule conjI)
  note run = failing_line_is_skipped
    [where g = generator0 and en = env_b_down and dialogue = ?dialogue and w = world0
       and ?w0.0 = wd,
     THEN conjunct2, THEN conjunct2, THEN conjunct2, THEN conjunct2, THEN mp, OF hr]
  have srt: "sort [''output/audio-files/000_A.mp3'', ''output/audio-files/002_A.mp3'']
               = [''output/audio-files/000_A.mp3'', ''output/audio-files/002_A.mp3'']"
    by simp
  from run have "PodcastAudioGenerator_run generator0 env_b_down ?dialogue world0 =
         (Inr [''output/audio-files/000_A.mp3'', ''output/audio-files/002_A.mp3''], w')"
    unfolding p fst_conv snd_conv srt .
  with mk have C: "\<exists>wd w'. makedirs env_b_down (output_dir generator0) world0 = (Inr (), wd) \<and>
       PodcastAudioGenerator_run generator0 env_b_down ?dialogue world0 =
         (Inr [''output/audio-files/000_A.mp3'', ''output/audio-files/002_A.mp3''], w')"
    by - (rule exI[of _ wd], rule exI[of _ w'], rule conjI, assumption+)
  from tb fail B dl C show ?thesis by (intro conjI)
qed

end
